theory Spec2Isabelle
  imports Complex_Main "HOL-Library.Word" "HOL-Library.Multiset" "HOL-Library.Product_Lexorder"
begin

section \<open>Single-precision values\<close>

text \<open>
  The C++ type \<open>float\<close> is taken to be IEEE 754 binary32, every operation rounding to
  nearest, ties to even, with no wider intermediate precision and no fused operation.
  \<open>Fin x\<close> is the finite value \<open>x\<close>; the sign of zero is not modelled. The sensor code
  tests \<open>std::isnan\<close> and relies on every comparison with a not-a-number being false, so
  the special values are part of the model.
\<close>

datatype float = NaN | NInf | Fin real | PInf

subsection \<open>Rounding\<close>

text \<open>Rounding a real to the nearest integer, a tie to the even one.\<close>

definition round_even :: "real \<Rightarrow> int" where
  "round_even x =
     (let f = \<lfloor>x\<rfloor>; d = x - of_int f
      in if d < 1 / 2 then f else if 1 / 2 < d then f + 1 else if even f then f else f + 1)"

text \<open>
  The exponent of the unit in the last place of a binary32 value of the magnitude of
  \<open>x\<close>: the greatest \<open>q\<close> from \<open>-148\<close> to \<open>104\<close> with \<open>2^(q + 23) \<le> \<bar>x\<bar>\<close>, and \<open>-149\<close> when
  there is none (the subnormal numbers and the smallest normal ones). The search runs
  downwards from the candidate \<open>n - 148\<close>.
\<close>

fun ulp_exponent_below :: "real \<Rightarrow> nat \<Rightarrow> int" where
  "ulp_exponent_below x 0 = - 149"
| "ulp_exponent_below x (Suc n) =
     (if 2 powi (int n - 125) \<le> \<bar>x\<bar> then int n - 148 else ulp_exponent_below x n)"

declare ulp_exponent_below.simps [simp del]

definition ulp_exponent :: "real \<Rightarrow> int" where
  "ulp_exponent x = ulp_exponent_below x 253"

text \<open>
  The binary32 value of an exact result \<open>x\<close>: the nearest multiple of the unit in the
  last place, and an infinity when that multiple has magnitude \<open>2^128\<close> or more.
\<close>

definition round32 :: "real \<Rightarrow> float" where
  "round32 x =
     (let q = ulp_exponent x; r = of_int (round_even (x / 2 powi q)) * 2 powi q
      in if 2 ^ 128 \<le> \<bar>r\<bar> then (if x < 0 then NInf else PInf) else Fin r)"

text \<open>A real that is a binary32 value: rounding leaves it as it is.\<close>

definition representable :: "real \<Rightarrow> bool" where
  "representable x = (round32 x = Fin x)"

subsection \<open>Comparisons and arithmetic\<close>

fun isnan :: "float \<Rightarrow> bool" where
  "isnan NaN = True"
| "isnan _ = False"

text \<open>\<open>a <= b\<close>\<close>

fun fle :: "float \<Rightarrow> float \<Rightarrow> bool" where
  "fle NaN _ = False"
| "fle _ NaN = False"
| "fle NInf _ = True"
| "fle _ PInf = True"
| "fle (Fin a) (Fin b) = (a \<le> b)"
| "fle _ _ = False"

text \<open>\<open>a < b\<close>\<close>

fun flt :: "float \<Rightarrow> float \<Rightarrow> bool" where
  "flt NaN _ = False"
| "flt _ NaN = False"
| "flt PInf _ = False"
| "flt _ NInf = False"
| "flt (Fin a) (Fin b) = (a < b)"
| "flt _ _ = True"

text \<open>\<open>a >= b\<close> and \<open>a > b\<close>\<close>

definition fge :: "float \<Rightarrow> float \<Rightarrow> bool" where
  "fge a b = fle b a"

definition fgt :: "float \<Rightarrow> float \<Rightarrow> bool" where
  "fgt a b = flt b a"

fun fneg :: "float \<Rightarrow> float" where
  "fneg NaN = NaN"
| "fneg NInf = PInf"
| "fneg PInf = NInf"
| "fneg (Fin a) = Fin (- a)"

text \<open>\<open>a + b\<close>: the exact sum of two finite values, rounded.\<close>

fun fadd :: "float \<Rightarrow> float \<Rightarrow> float" where
  "fadd NaN _ = NaN"
| "fadd _ NaN = NaN"
| "fadd PInf NInf = NaN"
| "fadd NInf PInf = NaN"
| "fadd PInf _ = PInf"
| "fadd _ PInf = PInf"
| "fadd NInf _ = NInf"
| "fadd _ NInf = NInf"
| "fadd (Fin a) (Fin b) = round32 (a + b)"


text \<open>The sign of a value that is not a NaN, as \<open>-1\<close>, \<open>0\<close> or \<open>1\<close>.\<close>

fun fsgn :: "float \<Rightarrow> int" where
  "fsgn NaN = 0"
| "fsgn NInf = - 1"
| "fsgn PInf = 1"
| "fsgn (Fin a) = (if a < 0 then - 1 else if a = 0 then 0 else 1)"

text \<open>\<open>a * b\<close>: the exact product of two finite values, rounded.\<close>

fun fmul :: "float \<Rightarrow> float \<Rightarrow> float" where
  "fmul NaN _ = NaN"
| "fmul _ NaN = NaN"
| "fmul (Fin a) (Fin b) = round32 (a * b)"
| "fmul a b =
     (if fsgn a * fsgn b = 0 then NaN else if fsgn a * fsgn b < 0 then NInf else PInf)"


text \<open>
  \<open>std::cos\<close> and \<open>std::sin\<close>, taken to return the rounded exact value. No statement
  below depends on the value of either at an angle other than \<open>0\<close>.
\<close>

fun fcos :: "float \<Rightarrow> float" where
  "fcos (Fin a) = round32 (cos a)"
| "fcos _ = NaN"

fun fsin :: "float \<Rightarrow> float" where
  "fsin (Fin a) = round32 (sin a)"
| "fsin _ = NaN"

section \<open>Vectors and point clouds\<close>

datatype Vector2f = Vector2f float float

datatype Vector3f = Vector3f float float float



type_synonym PointCloud = "Vector3f list"

type_synonym PointCloud2D = "Vector2f list"

type_synonym uint8 = "8 word"

section \<open>Laser fans (sensor/laser.cc)\<close>

record LaserFan3D =
  origin :: Vector3f
  returns :: PointCloud
  misses :: PointCloud
  reflectivities :: "uint8 list"

subsection \<open>FilterLaserFanByMaxRange\<close>





subsection \<open>ToLaserFan\<close>

datatype error = CheckFailed | OutOfBounds

text \<open>
  The message \<open>proto::LaserScan\<close>: three angles and, for every beam, the list of its echo
  values (\<open>range(i).value()\<close>).
\<close>

record LaserScan =
  angle_min :: float
  angle_max :: float
  angle_increment :: float
  range_values :: "float list list"

record LaserFan =
  origin :: Vector2f
  point_cloud :: PointCloud2D
  missing_echo_point_cloud :: PointCloud2D

text \<open>\<open>Eigen::Rotation2Df(angle) * v\<close>: the rotation matrix applied to \<open>v\<close>.\<close>

fun Rotation2Df :: "float \<Rightarrow> Vector2f \<Rightarrow> Vector2f" where
  "Rotation2Df angle (Vector2f a b) =
     Vector2f (fadd (fmul (fcos angle) a) (fmul (fneg (fsin angle)) b))
              (fadd (fmul (fsin angle) a) (fmul (fcos angle) b))"

text \<open>The body of the loop over \<open>proto.range()\<close>, without the update of \<open>angle\<close>.\<close>

definition beam_step ::
  "float \<Rightarrow> float \<Rightarrow> float \<Rightarrow> float \<Rightarrow> LaserFan \<Rightarrow> float list \<Rightarrow> LaserFan" where
  "beam_step min_range max_range missing_echo_ray_length angle laser_fan rng =
     (if length rng > 0 then
        (let first_echo = rng ! 0 in
         if \<not> isnan first_echo \<and> fge first_echo min_range then
           if fle first_echo max_range then
             laser_fan\<lparr>point_cloud := point_cloud laser_fan @
               [Rotation2Df angle (Vector2f first_echo (Fin 0))]\<rparr>
           else
             laser_fan\<lparr>missing_echo_point_cloud := missing_echo_point_cloud laser_fan @
               [Rotation2Df angle (Vector2f missing_echo_ray_length (Fin 0))]\<rparr>
         else laser_fan)
      else laser_fan)"

text \<open>The loop: its state is the running \<open>angle\<close> and the fan built so far.\<close>

fun range_loop ::
  "LaserScan \<Rightarrow> float \<Rightarrow> float \<Rightarrow> float \<Rightarrow> float list list \<Rightarrow> float \<times> LaserFan
     \<Rightarrow> float \<times> LaserFan" where
  "range_loop proto min_range max_range mel [] (angle, laser_fan) = (angle, laser_fan)"
| "range_loop proto min_range max_range mel (rng # rest) (angle, laser_fan) =
     range_loop proto min_range max_range mel rest
       (fadd angle (angle_increment proto),
        beam_step min_range max_range mel angle laser_fan rng)"

text \<open>A failed \<open>CHECK\<close> aborts the process: no fan is returned.\<close>

definition ToLaserFan :: "LaserScan \<Rightarrow> float \<Rightarrow> float \<Rightarrow> float \<Rightarrow> error + LaserFan" where
  "ToLaserFan proto min_range max_range missing_echo_ray_length =
     (if \<not> fge min_range (Fin 0) then Inl CheckFailed
      else if \<not> fgt (angle_increment proto) (Fin 0) then Inl CheckFailed
      else if \<not> fgt (angle_max proto) (angle_min proto) then Inl CheckFailed
      else Inr (snd (range_loop proto min_range max_range missing_echo_ray_length
                  (range_values proto)
                  (angle_min proto,
                   \<lparr>LaserFan.origin = Vector2f (Fin 0) (Fin 0), point_cloud = [],
                    missing_echo_point_cloud = []\<rparr>))))"

text \<open>
  The value of \<open>angle\<close> when beam \<open>i\<close> is visited: \<open>angle_min\<close> after \<open>i\<close> additions of
  \<open>angle_increment\<close>.
\<close>

definition accum :: "float \<Rightarrow> float \<Rightarrow> nat \<Rightarrow> float" where
  "accum inc a0 i = ((\<lambda>a. fadd a inc) ^^ i) a0"

definition beam_angle :: "LaserScan \<Rightarrow> nat \<Rightarrow> float" where
  "beam_angle proto i = accum (angle_increment proto) (angle_min proto) i"

text \<open>
  What one beam contributes, decided by its first echo: nothing, the return point, or the
  synthetic point of a miss. After the checks of \<open>ToLaserFan\<close> this is the case
  distinction of the loop body (\<open>beam_step_classify\<close> below).
\<close>

datatype beam_class = NoPoint | Return | Miss

definition classify :: "float \<Rightarrow> float \<Rightarrow> float list \<Rightarrow> beam_class" where
  "classify min_range max_range rng =
     (case rng of
        [] \<Rightarrow> NoPoint
      | first_echo # _ \<Rightarrow>
          if isnan first_echo \<or> flt first_echo min_range then NoPoint
          else if fle first_echo max_range then Return
          else Miss)"

text \<open>
  The classification in the words of the specification: a miss is an echo that exceeds
  \<open>maxRange\<close>, a return is any other echo that is not skipped.
\<close>

definition classify_spec :: "float \<Rightarrow> float \<Rightarrow> float list \<Rightarrow> beam_class" where
  "classify_spec min_range max_range rng =
     (case rng of
        [] \<Rightarrow> NoPoint
      | first_echo # _ \<Rightarrow>
          if isnan first_echo \<or> flt first_echo min_range then NoPoint
          else if fgt first_echo max_range then Miss
          else Return)"

definition return_point :: "LaserScan \<Rightarrow> nat \<Rightarrow> Vector2f" where
  "return_point proto i =
     Rotation2Df (beam_angle proto i) (Vector2f (hd (range_values proto ! i)) (Fin 0))"

definition miss_point :: "LaserScan \<Rightarrow> float \<Rightarrow> nat \<Rightarrow> Vector2f" where
  "miss_point proto missing_echo_ray_length i =
     Rotation2Df (beam_angle proto i) (Vector2f missing_echo_ray_length (Fin 0))"

subsection \<open>Compress and Decompress\<close>

text \<open>
  The class \<open>CompressedPointCloud\<close> (sensor/compressed_point_cloud.h) is not among the
  sources. \<open>Compress\<close> and \<open>Decompress\<close> use three of its operations, which are taken
  as a parameter: \<open>CompressAndReturnOrder\<close>, which also yields the vector
  \<open>new_to_old\<close> (a \<open>std::vector<int>\<close>), the constructor from a point cloud, and the
  member \<open>Decompress\<close>. The type \<open>'c\<close> is the compressed cloud.
\<close>

record 'c CompressedPointCloud_ops =
  CompressAndReturnOrder :: "PointCloud \<Rightarrow> 'c \<times> int list"
  CompressedPointCloud :: "PointCloud \<Rightarrow> 'c"
  Decompress_cloud :: "'c \<Rightarrow> PointCloud"

record 'c CompressedLaserFan3D =
  origin :: Vector3f
  returns :: 'c
  misses :: 'c
  reflectivities :: "uint8 list"

text \<open>
  The loop of \<open>ReorderReflectivities\<close>. Both \<open>new_to_old[i]\<close> and
  \<open>reflectivities[new_to_old[i]]\<close> are unchecked reads of a \<open>std::vector\<close>; a read
  outside the vector is the error \<open>OutOfBounds\<close>. The \<open>int\<close> read from \<open>new_to_old\<close>
  is converted to \<open>size_t\<close>, so a negative one is out of range as well.
\<close>

function reorder_loop ::
  "uint8 list \<Rightarrow> int list \<Rightarrow> nat \<Rightarrow> uint8 list \<Rightarrow> error + uint8 list" where
  "reorder_loop refls new_to_old i reordered =
     (if i < length reordered then
        if i < length new_to_old then
          if 0 \<le> new_to_old ! i \<and> nat (new_to_old ! i) < length refls then
            reorder_loop refls new_to_old (i + 1)
              (reordered[i := refls ! nat (new_to_old ! i)])
          else Inl OutOfBounds
        else Inl OutOfBounds
      else Inr reordered)"
  by pat_completeness auto
termination
  by (relation "measure (\<lambda>(refls, new_to_old, i, reordered). length reordered - i)")
     auto

declare reorder_loop.simps [simp del]

definition ReorderReflectivities :: "uint8 list \<Rightarrow> int list \<Rightarrow> error + uint8 list" where
  "ReorderReflectivities refls new_to_old =
     reorder_loop refls new_to_old 0 (replicate (length refls) 0)"

definition Compress ::
  "'c CompressedPointCloud_ops \<Rightarrow> LaserFan3D \<Rightarrow> error + 'c CompressedLaserFan3D" where
  "Compress ops laser_fan =
     (case CompressAndReturnOrder ops (LaserFan3D.returns laser_fan) of
        (compressed_returns, new_to_old) \<Rightarrow>
          (case ReorderReflectivities (LaserFan3D.reflectivities laser_fan) new_to_old of
             Inl e \<Rightarrow> Inl e
           | Inr reordered \<Rightarrow>
               Inr \<lparr>CompressedLaserFan3D.origin = LaserFan3D.origin laser_fan,
                    returns = compressed_returns,
                    misses = CompressedPointCloud ops (LaserFan3D.misses laser_fan),
                    reflectivities = reordered\<rparr>))"

definition Decompress :: "'c CompressedPointCloud_ops \<Rightarrow> 'c CompressedLaserFan3D \<Rightarrow> LaserFan3D" where
  "Decompress ops compressed_laser_fan =
     \<lparr>LaserFan3D.origin = CompressedLaserFan3D.origin compressed_laser_fan,
      returns = Decompress_cloud ops (CompressedLaserFan3D.returns compressed_laser_fan),
      misses = Decompress_cloud ops (CompressedLaserFan3D.misses compressed_laser_fan),
      reflectivities = CompressedLaserFan3D.reflectivities compressed_laser_fan\<rparr>"

text \<open>
  Modelled from the spec: the class \<open>CompressedPointCloud\<close> is missing. The specification
  says that compression "quantizes/reorders \<open>returns\<close> for compact storage, recording the
  permutation \<open>new_to_old\<close>", and that decoding recovers the points "exact or
  quantization-bounded". In this model a compressed cloud is the list of the points
  quantized to the nearest multiple of a precision and sorted (by their quantized
  coordinates, lexicographically, points with equal coordinates in their input order);
  \<open>new_to_old\<close> holds for every sorted position the index the point had in the input.
  A coordinate that is not finite is quantized to \<open>0\<close>. The arithmetic of this model
  is that of the reals.
\<close>

type_synonym raster_point = "int \<times> int \<times> int"

fun quantize :: "real \<Rightarrow> float \<Rightarrow> int" where
  "quantize precision (Fin a) = round (a / precision)"
| "quantize precision _ = 0"

fun to_raster :: "real \<Rightarrow> Vector3f \<Rightarrow> raster_point" where
  "to_raster precision (Vector3f a b c) =
     (quantize precision a, quantize precision b, quantize precision c)"

fun from_raster :: "real \<Rightarrow> raster_point \<Rightarrow> Vector3f" where
  "from_raster precision (i, j, k) =
     Vector3f (Fin (real_of_int i * precision)) (Fin (real_of_int j * precision))
       (Fin (real_of_int k * precision))"

definition sorted_order :: "real \<Rightarrow> PointCloud \<Rightarrow> nat list" where
  "sorted_order precision points =
     map snd (sort_key fst (zip (map (to_raster precision) points)
                              [0..<length points]))"

definition sorting_ops :: "real \<Rightarrow> raster_point list CompressedPointCloud_ops" where
  "sorting_ops precision =
     \<lparr>CompressAndReturnOrder = (\<lambda>points.
        (map (\<lambda>j. to_raster precision (points ! j)) (sorted_order precision points),
         map int (sorted_order precision points))),
      CompressedPointCloud = (\<lambda>points.
        map (\<lambda>j. to_raster precision (points ! j)) (sorted_order precision points)),
      Decompress_cloud = map (from_raster precision)\<rparr>"

text \<open>
  Two points are within the quantization tolerance of a precision when every coordinate
  differs by at most half of it.
\<close>

fun near :: "real \<Rightarrow> float \<Rightarrow> float \<Rightarrow> bool" where
  "near precision (Fin a) (Fin b) = (\<bar>a - b\<bar> \<le> precision / 2)"
| "near precision _ _ = False"

fun within_tolerance :: "real \<Rightarrow> Vector3f \<Rightarrow> Vector3f \<Rightarrow> bool" where
  "within_tolerance precision (Vector3f a b c) (Vector3f a' b' c') =
     (near precision a a' \<and> near precision b b' \<and> near precision c c')"

text \<open>
  The permutation recorded by compression, as the specification describes it:
  \<open>new_to_old\<close> lists every index of the returns exactly once.
\<close>

definition is_permutation_of_indices :: "int list \<Rightarrow> nat \<Rightarrow> bool" where
  "is_permutation_of_indices new_to_old n = (mset new_to_old = mset (map int [0..<n]))"

text \<open>Every read of \<open>ReorderReflectivities\<close> is inside its vector.\<close>

definition reads_in_bounds :: "uint8 list \<Rightarrow> int list \<Rightarrow> bool" where
  "reads_in_bounds refls new_to_old =
     (length refls \<le> length new_to_old \<and>
      (\<forall>i < length refls.
         0 \<le> new_to_old ! i \<and> nat (new_to_old ! i) < length refls))"

text \<open>
  A point cloud is in compressed order when its quantized points are sorted, as
  compression leaves them.
\<close>

definition in_compressed_order :: "real \<Rightarrow> PointCloud \<Rightarrow> bool" where
  "in_compressed_order precision points = sorted (map (to_raster precision) points)"

text \<open>A point all of whose coordinates are finite.\<close>

fun finite_point :: "Vector3f \<Rightarrow> bool" where
  "finite_point (Vector3f (Fin a) (Fin b) (Fin c)) = True"
| "finite_point _ = False"

section \<open>The odometry state tracker (kalman_filter/odometry_state_tracker.h)\<close>

text \<open>
  \<open>common::Time\<close> and \<open>transform::Rigid3d\<close> are declared outside the sources: the types
  \<open>'t\<close> and \<open>'p\<close>, with \<open>common::Time::min()\<close> and \<open>transform::Rigid3d::Identity()\<close>
  taken as parameters.
\<close>

record ('t, 'p) OdometryState =
  time :: 't
  odometer_pose :: 'p
  state_pose :: 'p

text \<open>The constructor \<open>OdometryState()\<close>: the default member initializers of the header.\<close>

definition OdometryState_default :: "'t \<Rightarrow> 'p \<Rightarrow> ('t, 'p) OdometryState" where
  "OdometryState_default Time_min Identity =
     \<lparr>time = Time_min, odometer_pose = Identity, state_pose = Identity\<rparr>"

record ('t, 'p) OdometryStateTracker =
  odometry_states :: "('t, 'p) OdometryState list"
  window_size :: nat

text \<open>
  Modelled from the spec: the member functions of \<open>OdometryStateTracker\<close> are declared in
  the header and defined in odometry_state_tracker.cc, which is missing. The constructor
  fixes the window size (the \<open>int\<close> argument is stored in a 64-bit \<open>size_t\<close>) and starts
  with no states.
\<close>

definition OdometryStateTracker_init :: "int \<Rightarrow> ('t, 'p) OdometryStateTracker" where
  "OdometryStateTracker_init k = \<lparr>odometry_states = [], window_size = nat (k mod 2 ^ 64)\<rparr>"

text \<open>
  Modelled from the spec: \<open>AddState\<close> "appends to the back; if size exceeds
  \<open>window_size\<close>, evicts from the front".
\<close>

definition AddOdometryState ::
  "('t, 'p) OdometryStateTracker \<Rightarrow> ('t, 'p) OdometryState \<Rightarrow> ('t, 'p) OdometryStateTracker" where
  "AddOdometryState tracker odometry_state =
     (let pushed = odometry_states tracker @ [odometry_state]
      in tracker\<lparr>odometry_states :=
           (if length pushed > window_size tracker then tl pushed else pushed)\<rparr>)"

text \<open>Modelled from the spec: \<open>Empty\<close> is "true iff no states have been added".\<close>

definition empty_tracker :: "('t, 'p) OdometryStateTracker \<Rightarrow> bool" where
  "empty_tracker tracker = (odometry_states tracker = [])"

text \<open>
  Modelled from the spec: \<open>Newest\<close> "returns the most recently added state, or a
  default/empty state (\<open>time = minimum\<close>, identity poses) if none have been added yet".
\<close>

definition newest :: "'t \<Rightarrow> 'p \<Rightarrow> ('t, 'p) OdometryStateTracker \<Rightarrow> ('t, 'p) OdometryState" where
  "newest Time_min Identity tracker =
     (if empty_tracker tracker then OdometryState_default Time_min Identity
      else last (odometry_states tracker))"

text \<open>A sequence of \<open>AddState\<close> calls on a fresh tracker.\<close>

definition add_all ::
  "int \<Rightarrow> ('t, 'p) OdometryState list \<Rightarrow> ('t, 'p) OdometryStateTracker" where
  "add_all k states = foldl AddOdometryState (OdometryStateTracker_init k) states"

section \<open>Properties of rounding\<close>

lemma round_even_of_int: "round_even (of_int n) = n"
  by (simp add: round_even_def)

lemma round_even_small: "0 \<le> x \<Longrightarrow> x < 1 / 2 \<Longrightarrow> round_even x = 0"
proof -
  assume a: "0 \<le> x" "x < 1 / 2"
  then have "\<lfloor>x\<rfloor> = 0" by (simp add: floor_eq_iff)
  with a show ?thesis by (simp add: round_even_def)
qed

lemma round_even_below_half:
  "of_int n \<le> x \<Longrightarrow> x < of_int n + 1 / 2 \<Longrightarrow> round_even x = n"
proof -
  assume a: "of_int n \<le> x" "x < of_int n + 1 / 2"
  then have "\<lfloor>x\<rfloor> = n" by (simp add: floor_eq_iff)
  with a show ?thesis by (simp add: round_even_def)
qed

lemma round_even_tie_even:
  "even n \<Longrightarrow> round_even (of_int n + 1 / 2) = n"
proof -
  assume e: "even n"
  have "\<lfloor>real_of_int n + 1 / 2\<rfloor> = n" by (simp add: floor_eq_iff)
  with e show ?thesis by (simp add: round_even_def)
qed


lemma round_even_le: "x \<le> of_int n \<Longrightarrow> round_even x \<le> n"
proof -
  assume a: "x \<le> of_int n"
  have f: "of_int \<lfloor>x\<rfloor> \<le> x" by simp
  show ?thesis
  proof (cases "x = of_int n")
    case True
    then show ?thesis by (simp add: round_even_of_int)
  next
    case False
    with a have "x < of_int n" by simp
    then have "\<lfloor>x\<rfloor> < n" by (simp add: floor_less_iff)
    then show ?thesis by (auto simp: round_even_def Let_def)
  qed
qed

lemma ulp_exponent_below_lower:
  "ulp_exponent_below x N = - 149 \<or> 2 powi (ulp_exponent_below x N + 23) \<le> \<bar>x\<bar>"
  by (induction N) (auto simp: ulp_exponent_below.simps algebra_simps)

lemma ulp_exponent_below_upper:
  "\<bar>x\<bar> < 2 powi (int N - 125) \<Longrightarrow> \<bar>x\<bar> < 2 powi (ulp_exponent_below x N + 24)"
proof (induction N)
  case 0
  then show ?case by (simp add: ulp_exponent_below.simps)
next
  case (Suc N)
  show ?case
  proof (cases "2 powi (int N - 125) \<le> \<bar>x\<bar>")
    case True
    have "int N - 148 + 24 = int (Suc N) - 125" by simp
    with True Suc.prems show ?thesis by (simp add: ulp_exponent_below.simps)
  next
    case False
    then have "\<bar>x\<bar> < 2 powi (int N - 125)" by simp
    from Suc.IH [OF this] False show ?thesis by (simp add: ulp_exponent_below.simps)
  qed
qed

lemma ulp_exponent_below_range:
  "- 149 \<le> ulp_exponent_below x N \<and> ulp_exponent_below x N \<le> int N - 149"
  by (induction N) (auto simp: ulp_exponent_below.simps)

lemma ulp_exponent_range: "- 149 \<le> ulp_exponent x \<and> ulp_exponent x \<le> 104"
  using ulp_exponent_below_range [of x 253] by (simp add: ulp_exponent_def)

lemma ulp_exponent_lower:
  "ulp_exponent x = - 149 \<or> 2 powi (ulp_exponent x + 23) \<le> \<bar>x\<bar>"
  unfolding ulp_exponent_def by (rule ulp_exponent_below_lower)

lemma ulp_exponent_upper:
  "\<bar>x\<bar> < 2 ^ 128 \<Longrightarrow> \<bar>x\<bar> < 2 powi (ulp_exponent x + 24)"
  unfolding ulp_exponent_def by (rule ulp_exponent_below_upper) simp

lemma powi_less_cancel: "(2::real) powi a < 2 powi b \<Longrightarrow> a < b"
proof (rule ccontr)
  assume l: "(2::real) powi a < 2 powi b" and "\<not> a < b"
  then have "b \<le> a" by simp
  then have "(2::real) powi b \<le> 2 powi a" by (intro power_int_increasing) simp_all
  with l show False by simp
qed

lemma ulp_exponent_eq:
  assumes "2 powi (q + 23) \<le> \<bar>x\<bar>" and "\<bar>x\<bar> < 2 powi (q + 24)"
    and "- 149 \<le> q" and "q \<le> 104"
  shows "ulp_exponent x = q"
proof -
  have "(2::real) powi (q + 24) \<le> 2 powi 128"
    using assms(4) by (intro power_int_increasing) simp_all
  with assms(2) have small: "\<bar>x\<bar> < 2 ^ 128" by simp
  from ulp_exponent_upper [OF small] assms(1)
  have "(2::real) powi (q + 23) < 2 powi (ulp_exponent x + 24)" by simp
  then have "q + 23 < ulp_exponent x + 24" by (rule powi_less_cancel)
  then have le: "q \<le> ulp_exponent x" by simp
  have "ulp_exponent x \<le> q"
    using ulp_exponent_lower [of x]
  proof
    assume "ulp_exponent x = - 149"
    with assms(3) show ?thesis by simp
  next
    assume "2 powi (ulp_exponent x + 23) \<le> \<bar>x\<bar>"
    with assms(2) have "(2::real) powi (ulp_exponent x + 23) < 2 powi (q + 24)" by simp
    then have "ulp_exponent x + 23 < q + 24" by (rule powi_less_cancel)
    then show ?thesis by simp
  qed
  with le show ?thesis by simp
qed

lemma ulp_exponent_subnormal:
  assumes "\<bar>x\<bar> < 2 powi (- 125)"
  shows "ulp_exponent x = - 149"
proof (rule ccontr)
  assume n: "ulp_exponent x \<noteq> - 149"
  with ulp_exponent_lower [of x] have "2 powi (ulp_exponent x + 23) \<le> \<bar>x\<bar>" by simp
  with assms have "(2::real) powi (ulp_exponent x + 23) < 2 powi (- 125)" by simp
  then have "ulp_exponent x + 23 < - 125" by (rule powi_less_cancel)
  with ulp_exponent_range [of x] n show False by simp
qed

lemma round32_dyadic:
  assumes m: "\<bar>m\<bar> < 2 ^ 24" and q: "- 149 \<le> q" "q \<le> 104"
  shows "round32 (of_int m * 2 powi q) = Fin (of_int m * 2 powi q)"
proof -
  define x where "x = real_of_int m * 2 powi q"
  define q0 where "q0 = ulp_exponent x"
  have absx: "\<bar>x\<bar> = \<bar>real_of_int m\<bar> * 2 powi q"
    by (simp add: x_def abs_mult)
  from m have "\<bar>real_of_int m\<bar> < 2 ^ 24"
    by (metis of_int_abs of_int_less_numeral_power_cancel_iff)
  then have "\<bar>x\<bar> < 2 ^ 24 * 2 powi q"
    unfolding absx by (intro mult_strict_right_mono) simp_all
  also have "\<dots> = 2 powi (q + 24)"
    by (simp add: power_int_add)
  finally have up: "\<bar>x\<bar> < 2 powi (q + 24)" .
  have "(2::real) powi (q + 24) \<le> 2 powi 128"
    using q by (intro power_int_increasing) simp_all
  with up have small: "\<bar>x\<bar> < 2 ^ 128" by simp
  have le: "q0 \<le> q"
    using ulp_exponent_lower [of x] unfolding q0_def [symmetric]
  proof
    assume "q0 = - 149"
    with q show ?thesis by simp
  next
    assume "2 powi (q0 + 23) \<le> \<bar>x\<bar>"
    with up have "(2::real) powi (q0 + 23) < 2 powi (q + 24)" by simp
    then have "q0 + 23 < q + 24" by (rule powi_less_cancel)
    then show ?thesis by simp
  qed
  then obtain k where k: "q = q0 + int k"
    by (metis zle_iff_zadd)
  have "x / 2 powi q0 = real_of_int m * 2 ^ k"
    by (simp add: x_def k power_int_add)
  also have "\<dots> = real_of_int (m * 2 ^ k)" by simp
  finally have "round_even (x / 2 powi q0) = m * 2 ^ k"
    by (simp only: round_even_of_int)
  then have r: "of_int (round_even (x / 2 powi q0)) * 2 powi q0 = x"
    by (simp add: x_def k power_int_add)
  have "round32 x = Fin x"
    unfolding round32_def Let_def q0_def [symmetric] r using small by simp
  then show ?thesis by (simp add: x_def)
qed

lemma representable_dyadic:
  "\<bar>m\<bar> < 2 ^ 24 \<Longrightarrow> - 149 \<le> q \<Longrightarrow> q \<le> 104 \<Longrightarrow> representable (of_int m * 2 powi q)"
  by (simp add: representable_def round32_dyadic)

lemma round32_of_int: "\<bar>n\<bar> < 2 ^ 24 \<Longrightarrow> round32 (of_int n) = Fin (of_int n)"
  using round32_dyadic [of n 0] by simp

lemma round32_0: "round32 0 = Fin 0"
  using round32_of_int [of 0] by simp

lemma round32_1: "round32 1 = Fin 1"
  using round32_of_int [of 1] by simp

lemma round32_numeral:
  "numeral k < (2 ^ 24 :: int) \<Longrightarrow> round32 (numeral k) = Fin (numeral k)"
  using round32_of_int [of "numeral k"] by simp

lemma round32_neg_numeral:
  "numeral k < (2 ^ 24 :: int) \<Longrightarrow> round32 (- numeral k) = Fin (- numeral k)"
  using round32_of_int [of "- numeral k"] by simp


lemma round_even_error: "\<bar>real_of_int (round_even y) - y\<bar> \<le> 1 / 2"
proof -
  have "real_of_int \<lfloor>y\<rfloor> \<le> y" and "y < real_of_int \<lfloor>y\<rfloor> + 1"
    by linarith+
  then show ?thesis
    by (auto simp: round_even_def Let_def abs_le_iff)
qed

lemma round32_error:
  assumes "round32 x = Fin r"
  shows "\<bar>r - x\<bar> \<le> 2 powi (ulp_exponent x) / 2"
    and "\<exists>m. r = real_of_int m * 2 powi (ulp_exponent x)"
proof -
  define q where "q = ulp_exponent x"
  from assms have r: "r = real_of_int (round_even (x / 2 powi q)) * 2 powi q"
    unfolding round32_def Let_def q_def [symmetric] by (auto split: if_splits)
  have "r - x = (real_of_int (round_even (x / 2 powi q)) - x / 2 powi q) * 2 powi q"
    by (simp add: r left_diff_distrib)
  then have "\<bar>r - x\<bar> = \<bar>real_of_int (round_even (x / 2 powi q)) - x / 2 powi q\<bar> * 2 powi q"
    by (simp add: abs_mult)
  also have "\<dots> \<le> 1 / 2 * 2 powi q"
    by (intro mult_right_mono round_even_error) simp
  finally show "\<bar>r - x\<bar> \<le> 2 powi (ulp_exponent x) / 2"
    by (simp add: q_def)
  from r show "\<exists>m. r = real_of_int m * 2 powi (ulp_exponent x)"
    unfolding q_def by blast
qed

lemma round_even_near_zero:
  assumes "\<bar>y\<bar> < 1 / 2"
  shows "round_even y = 0"
proof (cases "0 \<le> y")
  case True
  with assms show ?thesis by (intro round_even_small) simp_all
next
  case False
  with assms have "\<lfloor>y\<rfloor> = - 1" by (simp add: floor_eq_iff)
  with False assms show ?thesis by (simp add: round_even_def)
qed

lemma round32_underflow:
  assumes "\<bar>x\<bar> < 2 powi (- 150)"
  shows "round32 x = Fin 0"
proof -
  have "(2::real) powi (- 150) \<le> 2 powi (- 125)"
    by (intro power_int_increasing) simp_all
  with assms have q: "ulp_exponent x = - 149"
    by (intro ulp_exponent_subnormal) simp
  have "\<bar>x / 2 powi (- 149)\<bar> < 1 / 2"
    using assms by (simp add: abs_mult power_int_minus field_simps)
  then have "round_even (x / 2 powi (- 149)) = 0"
    by (rule round_even_near_zero)
  then show ?thesis
    by (simp add: round32_def q Let_def)
qed

subsection \<open>Some rounded values\<close>

lemma representable_of_nat: "j < 2 ^ 24 \<Longrightarrow> representable (real j)"
  using round32_of_int [of "int j"] by (simp add: representable_def)

lemma round32_16777217: "round32 16777217 = Fin 16777216"
proof -
  have q: "ulp_exponent 16777217 = 1"
    by (rule ulp_exponent_eq) simp_all
  have "round_even (real_of_int 8388608 + 1 / 2) = 8388608"
    by (rule round_even_tie_even) simp
  then have "round_even (16777217 / 2) = 8388608"
    by simp
  then show ?thesis
    by (simp add: round32_def q)
qed


lemma round32_2_101: "round32 2535301200456458802993406410752 = Fin 2535301200456458802993406410752"
  using round32_dyadic [of 1 101] by simp




lemma round32_100000001: "round32 100000001 = Fin 100000000"
proof -
  have q: "ulp_exponent 100000001 = 3"
    by (rule ulp_exponent_eq) simp_all
  have "round_even (100000001 / 8) = 12500000"
    by (rule round_even_below_half) simp_all
  then show ?thesis
    by (simp add: round32_def q)
qed

section \<open>Properties of the loops\<close>



lemma accum_0: "accum inc a0 0 = a0"
  by (simp add: accum_def)

lemma accum_Suc: "accum inc a0 (Suc i) = fadd (accum inc a0 i) inc"
  by (simp add: accum_def)

lemma accum_shift: "accum inc (fadd a0 inc) i = accum inc a0 (Suc i)"
  by (induction i) (simp_all add: accum_def)

lemma accum_add: "accum inc (accum inc a0 k) j = accum inc a0 (k + j)"
  by (simp add: accum_def add.commute [of k j] funpow_add)

lemma range_loop_append:
  "range_loop proto min_range max_range mel (xs @ ys) st =
   range_loop proto min_range max_range mel ys
     (range_loop proto min_range max_range mel xs st)"
  by (induction xs arbitrary: st) (auto simp: split_paired_all)

lemma accum_exact:
  "(\<forall>j \<le> i. representable (a + real j * d)) \<Longrightarrow>
   accum (Fin d) (Fin a) i = Fin (a + real i * d)"
proof (induction i)
  case 0
  show ?case by (simp add: accum_0)
next
  case (Suc i)
  then have "accum (Fin d) (Fin a) i = Fin (a + real i * d)" by simp
  moreover have "a + real i * d + d = a + real (Suc i) * d"
    by (simp add: algebra_simps)
  moreover from Suc.prems have "round32 (a + real (Suc i) * d) = Fin (a + real (Suc i) * d)"
    unfolding representable_def by blast
  ultimately show ?case
    by (simp only: accum_Suc fadd.simps)
qed


lemma fge_not_flt: "\<not> isnan e \<Longrightarrow> \<not> isnan m \<Longrightarrow> fge e m \<longleftrightarrow> \<not> flt e m"
  by (cases e; cases m) (auto simp: fge_def)

lemma fgt_not_fle: "\<not> isnan e \<Longrightarrow> \<not> isnan m \<Longrightarrow> fgt e m \<longleftrightarrow> \<not> fle e m"
  by (cases e; cases m) (auto simp: fgt_def)

lemma fge_zero_not_nan: "fge m (Fin 0) \<Longrightarrow> \<not> isnan m"
  by (cases m) (auto simp: fge_def)

lemma beam_step_classify:
  assumes "\<not> isnan min_range"
  shows "beam_step min_range max_range mel angle laser_fan rng =
     (case classify min_range max_range rng of
        NoPoint \<Rightarrow> laser_fan
      | Return \<Rightarrow> laser_fan\<lparr>point_cloud := point_cloud laser_fan @
                   [Rotation2Df angle (Vector2f (hd rng) (Fin 0))]\<rparr>
      | Miss \<Rightarrow> laser_fan\<lparr>missing_echo_point_cloud := missing_echo_point_cloud laser_fan @
                   [Rotation2Df angle (Vector2f mel (Fin 0))]\<rparr>)"
proof (cases rng)
  case Nil
  then show ?thesis by (simp add: beam_step_def classify_def)
next
  case (Cons e es)
  show ?thesis
  proof (cases "isnan e")
    case True
    with Cons show ?thesis by (simp add: beam_step_def classify_def)
  next
    case False
    from False assms have "fge e min_range \<longleftrightarrow> \<not> flt e min_range" by (rule fge_not_flt)
    with Cons False show ?thesis by (simp add: beam_step_def classify_def)
  qed
qed

lemma upt_0_Suc: "[0..<Suc n] = 0 # map Suc [0..<n]"
  by (simp add: upt_conv_Cons map_Suc_upt del: upt_Suc)

lemma range_loop_char:
  assumes "\<not> isnan min_range"
  shows "range_loop proto min_range max_range mel rs (a0, fan) =
     (accum (angle_increment proto) a0 (length rs),
      fan\<lparr>point_cloud := point_cloud fan @
             map (\<lambda>i. Rotation2Df (accum (angle_increment proto) a0 i)
                        (Vector2f (hd (rs ! i)) (Fin 0)))
               (filter (\<lambda>i. classify min_range max_range (rs ! i) = Return) [0..<length rs]),
          missing_echo_point_cloud := missing_echo_point_cloud fan @
             map (\<lambda>i. Rotation2Df (accum (angle_increment proto) a0 i) (Vector2f mel (Fin 0)))
               (filter (\<lambda>i. classify min_range max_range (rs ! i) = Miss) [0..<length rs])\<rparr>)"
proof (induction rs arbitrary: a0 fan)
  case Nil
  show ?case by (simp add: accum_0)
next
  case (Cons r rs)
  show ?case
    by (cases "classify min_range max_range r")
       (simp_all add: Cons.IH beam_step_classify [OF assms] accum_shift accum_0 upt_0_Suc
          filter_map comp_def del: upt_Suc)
qed

lemma classify_spec_eq:
  "\<not> isnan max_range \<Longrightarrow>
   classify min_range max_range rng = classify_spec min_range max_range rng"
  by (cases rng) (auto simp: classify_def classify_spec_def fgt_not_fle)

subsection \<open>The reads of ReorderReflectivities\<close>

lemma reorder_loop_done:
  "\<not> i < length reordered \<Longrightarrow> reorder_loop refls new_to_old i reordered = Inr reordered"
  by (subst reorder_loop.simps) simp

lemma reorder_loop_fail:
  "i < length reordered \<Longrightarrow>
   \<not> (i < length new_to_old \<and> 0 \<le> new_to_old ! i \<and> nat (new_to_old ! i) < length refls) \<Longrightarrow>
   reorder_loop refls new_to_old i reordered = Inl OutOfBounds"
  by (subst reorder_loop.simps) auto

lemma reorder_loop_step:
  "i < length reordered \<Longrightarrow> i < length new_to_old \<Longrightarrow> 0 \<le> new_to_old ! i \<Longrightarrow>
   nat (new_to_old ! i) < length refls \<Longrightarrow>
   reorder_loop refls new_to_old i reordered =
     reorder_loop refls new_to_old (i + 1) (reordered[i := refls ! nat (new_to_old ! i)])"
  by (subst reorder_loop.simps) simp

lemma reorder_loop_char:
  "i \<le> length reordered \<Longrightarrow>
   reorder_loop refls new_to_old i reordered =
     (if \<forall>k. i \<le> k \<and> k < length reordered \<longrightarrow>
            k < length new_to_old \<and> 0 \<le> new_to_old ! k \<and> nat (new_to_old ! k) < length refls
      then Inr (take i reordered @
                map (\<lambda>k. refls ! nat (new_to_old ! k)) [i..<length reordered])
      else Inl OutOfBounds)"
proof (induction refls new_to_old i reordered rule: reorder_loop.induct)
  case (1 refls new_to_old i reordered)
  show ?case
  proof (cases "i < length reordered")
    case False
    with "1.prems" have "i = length reordered" by simp
    with False show ?thesis by (simp add: reorder_loop_done)
  next
    case True
    show ?thesis
    proof (cases "i < length new_to_old \<and> 0 \<le> new_to_old ! i
                    \<and> nat (new_to_old ! i) < length refls")
      case False
      with True have "reorder_loop refls new_to_old i reordered = Inl OutOfBounds"
        by (rule reorder_loop_fail)
      moreover from False True have
        "\<not> (\<forall>k. i \<le> k \<and> k < length reordered \<longrightarrow>
              k < length new_to_old \<and> 0 \<le> new_to_old ! k \<and> nat (new_to_old ! k) < length refls)"
        by (intro notI) (drule spec [of _ i], simp)
      ultimately show ?thesis by simp
    next
      case ok: True
      let ?v = "refls ! nat (new_to_old ! i)"
      have step: "reorder_loop refls new_to_old i reordered =
                  reorder_loop refls new_to_old (i + 1) (reordered[i := ?v])"
        using True ok by (simp add: reorder_loop_step)
      have ih: "reorder_loop refls new_to_old (i + 1) (reordered[i := ?v]) =
         (if \<forall>k. i + 1 \<le> k \<and> k < length (reordered[i := ?v]) \<longrightarrow>
            k < length new_to_old \<and> 0 \<le> new_to_old ! k \<and> nat (new_to_old ! k) < length refls
          then Inr (take (i + 1) (reordered[i := ?v]) @
                    map (\<lambda>k. refls ! nat (new_to_old ! k)) [i + 1..<length (reordered[i := ?v])])
          else Inl OutOfBounds)"
        using True ok by (intro "1.IH") simp_all
      have all: "(\<forall>k. i \<le> k \<and> k < length reordered \<longrightarrow>
            k < length new_to_old \<and> 0 \<le> new_to_old ! k \<and> nat (new_to_old ! k) < length refls)
          \<longleftrightarrow> (\<forall>k. i + 1 \<le> k \<and> k < length reordered \<longrightarrow>
            k < length new_to_old \<and> 0 \<le> new_to_old ! k \<and> nat (new_to_old ! k) < length refls)"
      proof -
        have "\<And>k. i \<le> k \<longleftrightarrow> k = i \<or> i + 1 \<le> k" by auto
        with ok True show ?thesis by auto
      qed
      have tk: "take (Suc i) (reordered[i := ?v]) = take i reordered @ [?v]"
        using True by (simp add: take_Suc_conv_app_nth)
      have up: "[i..<length reordered] = i # [Suc i..<length reordered]"
        using True by (simp add: upt_conv_Cons)
      show ?thesis
        unfolding step ih all by (simp add: tk up del: upt_Suc)
    qed
  qed
qed

lemma ReorderReflectivities_char:
  "ReorderReflectivities refls new_to_old =
     (if reads_in_bounds refls new_to_old
      then Inr (map (\<lambda>k. refls ! nat (new_to_old ! k)) [0..<length refls])
      else Inl OutOfBounds)"
proof -
  have "(\<forall>k. 0 \<le> k \<and> k < length refls \<longrightarrow>
            k < length new_to_old \<and> 0 \<le> new_to_old ! k \<and> nat (new_to_old ! k) < length refls)
        \<longleftrightarrow> reads_in_bounds refls new_to_old"
    unfolding reads_in_bounds_def
    by (cases "length refls") (auto simp: not_less_eq_eq intro: Suc_leI)
  then show ?thesis
    by (simp add: ReorderReflectivities_def reorder_loop_char)
qed
subsection \<open>The recorded permutation\<close>

lemma permutation_length:
  "is_permutation_of_indices new_to_old n \<Longrightarrow> length new_to_old = n"
  unfolding is_permutation_of_indices_def
  by (drule mset_eq_length) simp

lemma permutation_range:
  "is_permutation_of_indices new_to_old n \<Longrightarrow> j \<in> set new_to_old \<Longrightarrow> 0 \<le> j \<and> nat j < n"
  unfolding is_permutation_of_indices_def
  by (drule mset_eq_setD) auto

lemma permutation_reads_in_bounds:
  assumes "is_permutation_of_indices new_to_old n" and "length refls = n"
  shows "reads_in_bounds refls new_to_old"
  unfolding reads_in_bounds_def
  using permutation_length [OF assms(1)] permutation_range [OF assms(1)] assms(2)
  by (metis nth_mem order_refl)

lemma map_index_new_to_old:
  "map (\<lambda>k. f (new_to_old ! k)) [0..<length new_to_old] = map f new_to_old"
  by (rule nth_equalityI) simp_all

lemma permutation_mset:
  assumes "is_permutation_of_indices new_to_old (length xs)"
  shows "mset (map (\<lambda>j. xs ! nat j) new_to_old) = mset xs"
proof -
  have "mset (map (\<lambda>j. xs ! nat j) new_to_old) = image_mset (\<lambda>j. xs ! nat j) (mset new_to_old)"
    by simp
  also have "\<dots> = image_mset (\<lambda>j. xs ! nat j) (mset (map int [0..<length xs]))"
    using assms by (simp only: is_permutation_of_indices_def)
  also have "\<dots> = mset (map (\<lambda>i. xs ! i) [0..<length xs])"
    by (simp add: comp_def multiset.map_comp flip: mset_map)
  also have "\<dots> = mset xs"
    by (simp add: map_nth)
  finally show ?thesis .
qed

lemma ReorderReflectivities_empty: "ReorderReflectivities [] new_to_old = Inr []"
  by (simp add: ReorderReflectivities_char reads_in_bounds_def)

lemma ReorderReflectivities_permutation:
  assumes "is_permutation_of_indices new_to_old (length refls)"
  shows "ReorderReflectivities refls new_to_old = Inr (map (\<lambda>j. refls ! nat j) new_to_old)"
proof -
  have "reads_in_bounds refls new_to_old"
    using assms by (rule permutation_reads_in_bounds) simp
  moreover have "length new_to_old = length refls"
    using assms by (rule permutation_length)
  ultimately show ?thesis
    using map_index_new_to_old [of "\<lambda>j. refls ! nat j" new_to_old]
    by (simp add: ReorderReflectivities_char)
qed

lemma sorting_order_example:
  "CompressAndReturnOrder (sorting_ops (1/1000))
     [Vector3f (Fin 2) (Fin 0) (Fin 0), Vector3f (Fin 0) (Fin 0) (Fin 0)]
   = ([(0, 0, 0), (2000, 0, 0)], [1, 0])"
  by (simp add: sorting_ops_def sorted_order_def upt_rec less_eq_prod_def)

subsection \<open>The modelled coder records a permutation and decodes within the tolerance\<close>

lemma sorted_order_permutation:
  "is_permutation_of_indices (map int (sorted_order precision points)) (length points)"
proof -
  have "mset (sorted_order precision points) = mset [0..<length points]"
    unfolding sorted_order_def mset_map mset_sort by (simp flip: mset_map)
  then show ?thesis
    unfolding is_permutation_of_indices_def mset_map by simp
qed

lemma near_quantize:
  assumes "0 < precision"
  shows "near precision (Fin (real_of_int (quantize precision (Fin a)) * precision)) (Fin a)"
proof -
  have "\<bar>real_of_int (round (a / precision)) - a / precision\<bar> \<le> 1 / 2"
    by (rule of_int_round_abs_le)
  then have "\<bar>real_of_int (round (a / precision)) - a / precision\<bar> * precision
             \<le> 1 / 2 * precision"
    using assms by (intro mult_right_mono) simp_all
  moreover have "\<bar>real_of_int (round (a / precision)) - a / precision\<bar> * precision =
                 \<bar>real_of_int (round (a / precision)) * precision - a\<bar>"
  proof -
    have "\<bar>real_of_int (round (a / precision)) - a / precision\<bar> * \<bar>precision\<bar> =
          \<bar>(real_of_int (round (a / precision)) - a / precision) * precision\<bar>"
      by (simp only: abs_mult)
    also have "(real_of_int (round (a / precision)) - a / precision) * precision =
               real_of_int (round (a / precision)) * precision - a"
      using assms by (simp add: left_diff_distrib)
    finally show ?thesis using assms by simp
  qed
  ultimately show ?thesis by simp
qed

lemma within_tolerance_quantize:
  assumes "0 < precision" and "finite_point p"
  shows "within_tolerance precision (from_raster precision (to_raster precision p)) p"
proof -
  from assms(2) obtain a b c where p: "p = Vector3f (Fin a) (Fin b) (Fin c)"
    by (cases p rule: finite_point.cases) simp_all
  show ?thesis
    using near_quantize [OF assms(1), of a] near_quantize [OF assms(1), of b]
      near_quantize [OF assms(1), of c]
    by (simp add: p)
qed

lemma sorting_ops_meets_description:
  assumes "0 < precision" and "\<forall>p \<in> set points. finite_point p"
    and "CompressAndReturnOrder (sorting_ops precision) points = (compressed, new_to_old)"
  shows "is_permutation_of_indices new_to_old (length points)"
    and "list_all2 (within_tolerance precision)
           (Decompress_cloud (sorting_ops precision) compressed)
           (map (\<lambda>j. points ! nat j) new_to_old)"
proof -
  from assms(3) have n: "new_to_old = map int (sorted_order precision points)"
    and c: "compressed = map (\<lambda>j. to_raster precision (points ! j)) (sorted_order precision points)"
    by (simp_all add: sorting_ops_def)
  show "is_permutation_of_indices new_to_old (length points)"
    unfolding n by (rule sorted_order_permutation)
  then have "\<forall>j \<in> set (sorted_order precision points). j < length points"
    unfolding n using permutation_range by fastforce
  with assms(1,2) show "list_all2 (within_tolerance precision)
           (Decompress_cloud (sorting_ops precision) compressed)
           (map (\<lambda>j. points ! nat j) new_to_old)"
    unfolding n c
    by (simp add: sorting_ops_def list_all2_conv_all_nth within_tolerance_quantize)
qed

section \<open>Fan construction\<close>

text \<open>
  Claim C2, as the code has it. For a scan that passes the checks, the returns cloud
  holds, in beam order, the point at the echo distance along the beam for every beam
  whose first echo is not NaN, is not below \<open>min_range\<close> and is at most \<open>max_range\<close>;
  the misses cloud holds the point at distance \<open>missing_echo_ray_length\<close> along the beam
  for every beam whose first echo is not NaN, is not below \<open>min_range\<close> and is not at
  most \<open>max_range\<close>; every other beam contributes no point. Only the first echo of a
  beam is read. When \<open>max_range\<close> is not a NaN, "not at most \<open>max_range\<close>" is
  "exceeds \<open>max_range\<close>", which is the classification of the specification. The angle
  of beam \<open>i\<close> is the value of the single-precision variable \<open>angle\<close>: \<open>angle_min\<close> for
  the first beam, and for every later beam the rounded sum of the angle of the beam
  before it and \<open>angle_increment\<close>. This is \<open>angle_min + i * angle_increment\<close> when none
  of these sums is rounded.
\<close>

theorem ToLaserFan_classifies:
  assumes "ToLaserFan proto min_range max_range mel = Inr fan"
  shows "point_cloud fan =
           map (return_point proto)
             (filter (\<lambda>i. classify min_range max_range (range_values proto ! i) = Return)
                [0..<length (range_values proto)])
       \<and> missing_echo_point_cloud fan =
           map (miss_point proto mel)
             (filter (\<lambda>i. classify min_range max_range (range_values proto ! i) = Miss)
                [0..<length (range_values proto)])
       \<and> (\<not> isnan max_range \<longrightarrow>
            (\<forall>rng. classify min_range max_range rng = classify_spec min_range max_range rng))
       \<and> beam_angle proto 0 = angle_min proto
       \<and> (\<forall>i. beam_angle proto (Suc i) = fadd (beam_angle proto i) (angle_increment proto))
       \<and> (\<forall>a d i. angle_min proto = Fin a \<and> angle_increment proto = Fin d
              \<and> (\<forall>j \<le> i. representable (a + real j * d)) \<longrightarrow>
            beam_angle proto i = Fin (a + real i * d))"
proof -
  from assms have ok: "fge min_range (Fin 0)"
    and fan: "fan = snd (range_loop proto min_range max_range mel (range_values proto)
                (angle_min proto,
                 \<lparr>LaserFan.origin = Vector2f (Fin 0) (Fin 0), point_cloud = [],
                  missing_echo_point_cloud = []\<rparr>))"
    by (auto simp: ToLaserFan_def split: if_splits)
  from ok have nn: "\<not> isnan min_range" by (rule fge_zero_not_nan)
  have clouds: "point_cloud fan =
           map (return_point proto)
             (filter (\<lambda>i. classify min_range max_range (range_values proto ! i) = Return)
                [0..<length (range_values proto)])
       \<and> missing_echo_point_cloud fan =
           map (miss_point proto mel)
             (filter (\<lambda>i. classify min_range max_range (range_values proto ! i) = Miss)
                [0..<length (range_values proto)])"
    unfolding fan range_loop_char [OF nn]
    by (simp add: return_point_def [abs_def] miss_point_def [abs_def] beam_angle_def)
  have exact: "beam_angle proto i = Fin (a + real i * d)"
    if "angle_min proto = Fin a" and "angle_increment proto = Fin d"
      and "\<forall>j \<le> i. representable (a + real j * d)" for a d i
    using that by (simp add: beam_angle_def accum_exact)
  show ?thesis
    using clouds exact
    by (simp add: classify_spec_eq beam_angle_def accum_0 accum_Suc)
qed

theorem ToLaserFan_classifies_witness:
  "ToLaserFan \<lparr>angle_min = Fin 0, angle_max = Fin 4, angle_increment = Fin 1,
       range_values = [[Fin 2], [], [NaN], [Fin 20, Fin 1], [Fin (1/2)]]\<rparr>
       (Fin 1) (Fin 10) (Fin 5)
     = Inr \<lparr>LaserFan.origin = Vector2f (Fin 0) (Fin 0),
            point_cloud = [Vector2f (Fin 2) (Fin 0)],
            missing_echo_point_cloud = [Rotation2Df (Fin 3) (Vector2f (Fin 5) (Fin 0))]\<rparr>
   \<and> [Vector2f (Fin 2) (Fin 0)] =
       map (return_point \<lparr>angle_min = Fin 0, angle_max = Fin 4, angle_increment = Fin 1,
              range_values = [[Fin 2], [], [NaN], [Fin 20, Fin 1], [Fin (1/2)]]\<rparr>) [0]
   \<and> [Rotation2Df (Fin 3) (Vector2f (Fin 5) (Fin 0))] =
       map (miss_point \<lparr>angle_min = Fin 0, angle_max = Fin 4, angle_increment = Fin 1,
              range_values = [[Fin 2], [], [NaN], [Fin 20, Fin 1], [Fin (1/2)]]\<rparr> (Fin 5)) [3]
   \<and> classify (Fin 1) (Fin 10) [Fin 20, Fin 1] = classify_spec (Fin 1) (Fin 10) [Fin 20, Fin 1]
   \<and> representable 0 \<and> representable 1 \<and> representable 2 \<and> representable 3
   \<and> beam_angle \<lparr>angle_min = Fin 0, angle_max = Fin 4, angle_increment = Fin 1,
              range_values = [[Fin 2], [], [NaN], [Fin 20, Fin 1], [Fin (1/2)]]\<rparr> 3 = Fin 3"
proof -
  let ?scan = "\<lparr>angle_min = Fin 0, angle_max = Fin 4, angle_increment = Fin 1,
       range_values = [[Fin 2], [], [NaN], [Fin 20, Fin 1], [Fin (1/2)]]\<rparr>"
  have h: "ToLaserFan ?scan (Fin 1) (Fin 10) (Fin 5)
     = Inr \<lparr>LaserFan.origin = Vector2f (Fin 0) (Fin 0),
            point_cloud = [Vector2f (Fin 2) (Fin 0)],
            missing_echo_point_cloud = [Rotation2Df (Fin 3) (Vector2f (Fin 5) (Fin 0))]\<rparr>"
    by (simp add: ToLaserFan_def fge_def fgt_def beam_step_def Let_def round32_0 round32_1
        round32_numeral)
  have u: "[0..<5] = [0, 1, 2, 3, 4::nat]"
    by (simp add: upt_rec)
  have r: "\<forall>j \<le> 3. representable (0 + real j * 1)"
    by (simp add: representable_of_nat)
  from ToLaserFan_classifies [OF h] r
  have angle: "beam_angle ?scan 3 = Fin 3"
    by simp
  have r': "representable 0" "representable 1" "representable 2" "representable 3"
    by (simp_all add: representable_def round32_0 round32_1 round32_numeral)
  show ?thesis
    using ToLaserFan_classifies [OF h] h r' angle
    by (simp add: u classify_def classify_spec_def fgt_def numeral_3_eq_3)
qed

text \<open>
  Claim C2 as stated fails in two places. When \<open>max_range\<close> is a NaN, the echo \<open>1\<close> is not
  NaN, not below the minimum range \<open>0\<close> and does not exceed \<open>max_range\<close>, so the stated
  classification makes it a return; the code appends the synthetic point to the misses
  cloud and leaves the returns cloud empty. And for \<open>angle_min = 16777216\<close> and
  \<open>angle_increment = 1\<close> the second beam is not at the angle \<open>16777217\<close>: the sum is
  rounded to \<open>16777216\<close>, and both beams yield the same point.
\<close>

theorem ToLaserFan_max_range_and_angle_counterexample:
  "classify_spec (Fin 0) NaN [Fin 1] = Return
   \<and> ToLaserFan \<lparr>angle_min = Fin 0, angle_max = Fin 1, angle_increment = Fin 1,
         range_values = [[Fin 1]]\<rparr> (Fin 0) NaN (Fin 5)
       = Inr \<lparr>LaserFan.origin = Vector2f (Fin 0) (Fin 0), point_cloud = [],
              missing_echo_point_cloud = [Vector2f (Fin 5) (Fin 0)]\<rparr>
   \<and> ToLaserFan \<lparr>angle_min = Fin 16777216, angle_max = Fin 16777218,
         angle_increment = Fin 1, range_values = [[Fin 1], [Fin 1]]\<rparr> (Fin 0) (Fin 10) (Fin 5)
       = Inr \<lparr>LaserFan.origin = Vector2f (Fin 0) (Fin 0),
              point_cloud = [Rotation2Df (Fin 16777216) (Vector2f (Fin 1) (Fin 0)),
                             Rotation2Df (Fin 16777216) (Vector2f (Fin 1) (Fin 0))],
              missing_echo_point_cloud = []\<rparr>
   \<and> beam_angle \<lparr>angle_min = Fin 16777216, angle_max = Fin 16777218,
         angle_increment = Fin 1, range_values = [[Fin 1], [Fin 1]]\<rparr> 1 = Fin 16777216
   \<and> Fin 16777216 \<noteq> Fin (16777216 + real 1 * 1)"
  by (simp add: classify_spec_def fgt_def ToLaserFan_def fge_def beam_step_def Let_def
      beam_angle_def accum_def round32_0 round32_1 round32_numeral round32_16777217)

text \<open>
  Claim C6, as the code has it. Fan construction aborts exactly when one of the three
  checks \<open>min_range >= 0\<close>, \<open>angle_increment > 0\<close>, \<open>angle_max > angle_min\<close> is false:
  when \<open>min_range < 0\<close>, \<open>angle_increment <= 0\<close> or \<open>angle_max <= angle_min\<close>, and also when
  one of the four values is a NaN. When the three checks hold a fan is returned, whatever
  the range values are.
\<close>

theorem ToLaserFan_aborts_iff:
  "(ToLaserFan proto min_range max_range mel = Inl CheckFailed) =
     (\<not> (fge min_range (Fin 0) \<and> fgt (angle_increment proto) (Fin 0)
          \<and> fgt (angle_max proto) (angle_min proto)))
   \<and> (fge min_range (Fin 0) \<and> fgt (angle_increment proto) (Fin 0)
        \<and> fgt (angle_max proto) (angle_min proto) \<longrightarrow>
      (\<exists>fan. ToLaserFan proto min_range max_range mel = Inr fan))
   \<and> (\<not> (fge min_range (Fin 0) \<and> fgt (angle_increment proto) (Fin 0)
          \<and> fgt (angle_max proto) (angle_min proto))) =
     (flt min_range (Fin 0) \<or> fle (angle_increment proto) (Fin 0)
      \<or> fle (angle_max proto) (angle_min proto)
      \<or> isnan min_range \<or> isnan (angle_increment proto)
      \<or> isnan (angle_max proto) \<or> isnan (angle_min proto))"
proof -
  have a: "(\<not> fge min_range (Fin 0)) = (flt min_range (Fin 0) \<or> isnan min_range)"
    by (cases min_range) (auto simp: fge_def)
  have b: "(\<not> fgt (angle_increment proto) (Fin 0)) =
           (fle (angle_increment proto) (Fin 0) \<or> isnan (angle_increment proto))"
    by (cases "angle_increment proto") (auto simp: fgt_def)
  have c: "(\<not> fgt (angle_max proto) (angle_min proto)) =
           (fle (angle_max proto) (angle_min proto) \<or> isnan (angle_max proto)
            \<or> isnan (angle_min proto))"
    by (cases "angle_max proto"; cases "angle_min proto") (auto simp: fgt_def)
  show ?thesis
    using a b c by (auto simp: ToLaserFan_def)
qed

theorem ToLaserFan_aborts_iff_witness:
  "fge (Fin 1) (Fin 0) \<and> fgt (Fin 1) (Fin 0) \<and> fgt (Fin 4) (Fin 0)
   \<and> ToLaserFan \<lparr>angle_min = Fin 0, angle_max = Fin 4, angle_increment = Fin 1,
        range_values = [[NaN], [PInf], [Fin (- 3)]]\<rparr> (Fin 1) (Fin 10) (Fin 5)
      = Inr \<lparr>LaserFan.origin = Vector2f (Fin 0) (Fin 0), point_cloud = [],
             missing_echo_point_cloud = [Rotation2Df (Fin 1) (Vector2f (Fin 5) (Fin 0))]\<rparr>
   \<and> ToLaserFan \<lparr>angle_min = Fin 0, angle_max = Fin 4, angle_increment = Fin 1,
        range_values = [[NaN], [PInf], [Fin (- 3)]]\<rparr> (Fin (- 1)) (Fin 10) (Fin 5)
      = Inl CheckFailed"
  using ToLaserFan_aborts_iff [of "\<lparr>angle_min = Fin 0, angle_max = Fin 4,
      angle_increment = Fin 1, range_values = [[NaN], [PInf], [Fin (- 3)]]\<rparr>"
      "Fin 1" "Fin 10" "Fin 5"]
    ToLaserFan_aborts_iff [of "\<lparr>angle_min = Fin 0, angle_max = Fin 4,
      angle_increment = Fin 1, range_values = [[NaN], [PInf], [Fin (- 3)]]\<rparr>"
      "Fin (- 1)" "Fin 10" "Fin 5"]
  by (simp add: ToLaserFan_def fge_def fgt_def beam_step_def Let_def round32_0 round32_1
      round32_numeral)

text \<open>
  Claim C6 as stated fails for a NaN: \<open>min_range = NaN\<close> is not below \<open>0\<close>, the increment is
  positive and the angles are in order, yet the first check fails and construction
  aborts.
\<close>

theorem ToLaserFan_nan_min_range_counterexample:
  "\<not> flt NaN (Fin 0) \<and> \<not> fle (Fin 1) (Fin 0) \<and> \<not> fle (Fin 1) (Fin 0)
   \<and> ToLaserFan \<lparr>angle_min = Fin 0, angle_max = Fin 1, angle_increment = Fin 1,
        range_values = [[Fin 1]]\<rparr> NaN (Fin 10) (Fin 5) = Inl CheckFailed"
  by (simp add: ToLaserFan_def fge_def)

text \<open>
  Claim C9, as the code has it. In a scan whose beams are \<open>pre\<close>, then a beam with no echo, then \<open>post\<close>, the
  beam with no echo adds nothing to either cloud of the fan that \<open>ToLaserFan\<close> returns:
  the clouds hold the points of the beams \<open>pre\<close> followed by those of the beams \<open>post\<close>.
  The angle has advanced for it all the same: beam \<open>j\<close> of \<open>post\<close> has the angle of index
  \<open>length pre + 1 + j\<close>. The angle of a beam depends on its index only, whatever the
  beams before it contributed: it is \<open>angle_min\<close> at index \<open>0\<close> and, at each further
  index, the single-precision sum of the angle before and \<open>angle_increment\<close>. That sum
  is the angle before plus \<open>angle_increment\<close> when it is not rounded.
\<close>

theorem empty_beam_keeps_fan_and_advances_angle:
  assumes "ToLaserFan (proto\<lparr>range_values := pre @ [] # post\<rparr>) min_range max_range mel
             = Inr fan"
  shows "point_cloud fan =
           map (\<lambda>j. Rotation2Df (beam_angle proto j) (Vector2f (hd (pre ! j)) (Fin 0)))
             (filter (\<lambda>j. classify min_range max_range (pre ! j) = Return) [0..<length pre])
         @ map (\<lambda>j. Rotation2Df (beam_angle proto (length pre + 1 + j))
                      (Vector2f (hd (post ! j)) (Fin 0)))
             (filter (\<lambda>j. classify min_range max_range (post ! j) = Return) [0..<length post])
       \<and> missing_echo_point_cloud fan =
           map (\<lambda>j. Rotation2Df (beam_angle proto j) (Vector2f mel (Fin 0)))
             (filter (\<lambda>j. classify min_range max_range (pre ! j) = Miss) [0..<length pre])
         @ map (\<lambda>j. Rotation2Df (beam_angle proto (length pre + 1 + j)) (Vector2f mel (Fin 0)))
             (filter (\<lambda>j. classify min_range max_range (post ! j) = Miss) [0..<length post])
       \<and> beam_angle proto 0 = angle_min proto
       \<and> (\<forall>j. beam_angle proto (Suc j) = fadd (beam_angle proto j) (angle_increment proto))
       \<and> (\<forall>j a d. beam_angle proto j = Fin a \<and> angle_increment proto = Fin d
              \<and> representable (a + d) \<longrightarrow>
            beam_angle proto (Suc j) = Fin (a + d))"
proof -
  let ?fan0 = "\<lparr>LaserFan.origin = Vector2f (Fin 0) (Fin 0), point_cloud = [],
                 missing_echo_point_cloud = []\<rparr>"
  let ?scan = "proto\<lparr>range_values := pre @ [] # post\<rparr>"
  from assms have ok: "fge min_range (Fin 0)"
    and fan: "fan = snd (range_loop ?scan min_range max_range mel (pre @ [] # post)
                (angle_min proto, ?fan0))"
    by (auto simp: ToLaserFan_def split: if_splits)
  from ok have nn: "\<not> isnan min_range" by (rule fge_zero_not_nan)
  have inc: "angle_increment ?scan = angle_increment proto"
    by simp
  have empty: "beam_step min_range max_range mel a f [] = f" for a f
    by (simp add: beam_step_def)
  define A where "A = accum (angle_increment proto) (angle_min proto)"
  have split: "range_loop ?scan min_range max_range mel (pre @ [] # post) st =
        range_loop ?scan min_range max_range mel post
          (range_loop ?scan min_range max_range mel [[]]
            (range_loop ?scan min_range max_range mel pre st))" for st
    using range_loop_append [of ?scan min_range max_range mel pre "[] # post" st]
      range_loop_append [of ?scan min_range max_range mel "[[]]" post]
    by simp
  have s1: "range_loop ?scan min_range max_range mel pre (angle_min proto, ?fan0) =
      (A (length pre),
       \<lparr>LaserFan.origin = Vector2f (Fin 0) (Fin 0),
        point_cloud =
          map (\<lambda>j. Rotation2Df (A j) (Vector2f (hd (pre ! j)) (Fin 0)))
            (filter (\<lambda>j. classify min_range max_range (pre ! j) = Return) [0..<length pre]),
        missing_echo_point_cloud =
          map (\<lambda>j. Rotation2Df (A j) (Vector2f mel (Fin 0)))
            (filter (\<lambda>j. classify min_range max_range (pre ! j) = Miss) [0..<length pre])\<rparr>)"
    by (simp add: range_loop_char [OF nn] A_def del: Rotation2Df.simps)
  have s2: "range_loop ?scan min_range max_range mel [[]] (a, f) =
      (fadd a (angle_increment proto), f)" for a f
    by (simp add: empty)
  have s3: "range_loop ?scan min_range max_range mel post (A (Suc (length pre)), f) =
      (A (Suc (length pre) + length post),
       f\<lparr>point_cloud := point_cloud f @
          map (\<lambda>j. Rotation2Df (A (Suc (length pre) + j)) (Vector2f (hd (post ! j)) (Fin 0)))
            (filter (\<lambda>j. classify min_range max_range (post ! j) = Return) [0..<length post]),
        missing_echo_point_cloud := missing_echo_point_cloud f @
          map (\<lambda>j. Rotation2Df (A (Suc (length pre) + j)) (Vector2f mel (Fin 0)))
            (filter (\<lambda>j. classify min_range max_range (post ! j) = Miss) [0..<length post])\<rparr>)"
    for f
    by (simp add: range_loop_char [OF nn] A_def accum_add del: Rotation2Df.simps)
  have next_angle: "fadd (A (length pre)) (angle_increment proto) = A (Suc (length pre))"
    by (simp add: A_def accum_Suc)
  have angles: "beam_angle proto = A"
    by (simp add: fun_eq_iff beam_angle_def A_def)
  have rec: "A 0 = angle_min proto" "A (Suc j) = fadd (A j) (angle_increment proto)" for j
    by (simp_all add: A_def accum_0 accum_Suc)
  show ?thesis
    unfolding fan split s1 s2 next_angle s3 angles
    by (simp add: rec representable_def del: Rotation2Df.simps)
qed

theorem empty_beam_keeps_fan_and_advances_angle_witness:
  "ToLaserFan (\<lparr>angle_min = Fin 0, angle_max = Fin 4, angle_increment = Fin 1,
        range_values = []\<rparr>\<lparr>range_values := [[Fin 2]] @ [] # [[Fin 3]]\<rparr>)
     (Fin 1) (Fin 10) (Fin 5)
   = Inr \<lparr>LaserFan.origin = Vector2f (Fin 0) (Fin 0),
       point_cloud = [Vector2f (Fin 2) (Fin 0), Rotation2Df (Fin 2) (Vector2f (Fin 3) (Fin 0))],
       missing_echo_point_cloud = []\<rparr>
   \<and> beam_angle \<lparr>angle_min = Fin 0, angle_max = Fin 4, angle_increment = Fin 1,
        range_values = []\<rparr> (length [[Fin 2 :: float]] + 1 + 0) = Fin 2
   \<and> beam_angle \<lparr>angle_min = Fin 0, angle_max = Fin 4, angle_increment = Fin 1,
        range_values = []\<rparr> 1 = Fin 1
   \<and> representable (1 + 1)
   \<and> beam_angle \<lparr>angle_min = Fin 0, angle_max = Fin 4, angle_increment = Fin 1,
        range_values = []\<rparr> (Suc 1) = Fin (1 + 1)
   \<and> [Vector2f (Fin 2) (Fin 0), Rotation2Df (Fin 2) (Vector2f (Fin 3) (Fin 0))] =
       map (\<lambda>j. Rotation2Df (beam_angle \<lparr>angle_min = Fin 0, angle_max = Fin 4,
                    angle_increment = Fin 1, range_values = []\<rparr> j)
                  (Vector2f (hd ([[Fin 2]] ! j)) (Fin 0))) [0]
       @ map (\<lambda>j. Rotation2Df (beam_angle \<lparr>angle_min = Fin 0, angle_max = Fin 4,
                    angle_increment = Fin 1, range_values = []\<rparr> (length [[Fin 2 :: float]] + 1 + j))
                  (Vector2f (hd ([[Fin 3]] ! j)) (Fin 0))) [0]"
proof -
  let ?scan = "\<lparr>angle_min = Fin 0, angle_max = Fin 4, angle_increment = Fin 1,
        range_values = []\<rparr>"
  have h: "ToLaserFan (?scan\<lparr>range_values := [[Fin 2]] @ [] # [[Fin 3]]\<rparr>)
     (Fin 1) (Fin 10) (Fin 5)
   = Inr \<lparr>LaserFan.origin = Vector2f (Fin 0) (Fin 0),
       point_cloud = [Vector2f (Fin 2) (Fin 0), Rotation2Df (Fin 2) (Vector2f (Fin 3) (Fin 0))],
       missing_echo_point_cloud = []\<rparr>"
    by (simp add: ToLaserFan_def fge_def fgt_def beam_step_def Let_def round32_0 round32_1
        round32_numeral)
  have r: "representable (1 + 1)"
    by (simp add: representable_def round32_numeral)
  show ?thesis
    using empty_beam_keeps_fan_and_advances_angle [OF h] h r
    by (simp add: beam_angle_def accum_def round32_0 round32_1 round32_numeral classify_def)
qed

text \<open>
  Claim C9 as stated fails where it says that the angle advances by \<open>angle_increment\<close>:
  for \<open>angle_min = 16777216\<close> and \<open>angle_increment = 1\<close> the sum \<open>16777217\<close> is rounded to
  \<open>16777216\<close>, so the beam after a beam with no echo has the angle \<open>16777216\<close> of the
  first index.
\<close>

theorem empty_beam_angle_rounding_counterexample:
  "ToLaserFan \<lparr>angle_min = Fin 16777216, angle_max = Fin 16777218,
         angle_increment = Fin 1, range_values = [[], [Fin 1]]\<rparr> (Fin 0) (Fin 10) (Fin 5)
       = Inr \<lparr>LaserFan.origin = Vector2f (Fin 0) (Fin 0),
              point_cloud = [Rotation2Df (Fin 16777216) (Vector2f (Fin 1) (Fin 0))],
              missing_echo_point_cloud = []\<rparr>
   \<and> fadd (Fin 16777216) (Fin 1) = Fin 16777216
   \<and> Fin 16777216 \<noteq> Fin (16777216 + 1)"
  by (simp add: ToLaserFan_def fge_def fgt_def beam_step_def Let_def round32_16777217)

section \<open>Filtering by range\<close>




section \<open>Compression of a fan\<close>

text \<open>
  Claim C10. Every read of \<open>ReorderReflectivities\<close> is inside its vector exactly when
  \<open>new_to_old\<close> has at least as many entries as there are reflectivities and each of its
  first \<open>length refls\<close> entries is an index into the reflectivities; then the result
  holds \<open>refls[new_to_old[i]]\<close> at every position \<open>i\<close>. This is so when \<open>new_to_old\<close> is
  a permutation of the indices below \<open>n\<close> and there are \<open>n\<close> reflectivities. With no
  reflectivities the loop body is never entered, whatever \<open>new_to_old\<close> is. \<open>Compress\<close>
  has no other unchecked read of its own.
\<close>

theorem ReorderReflectivities_in_bounds:
  "((\<exists>reordered. ReorderReflectivities refls new_to_old = Inr reordered)
      \<longleftrightarrow> reads_in_bounds refls new_to_old)
   \<and> (ReorderReflectivities refls new_to_old = Inl OutOfBounds
      \<longleftrightarrow> \<not> reads_in_bounds refls new_to_old)
   \<and> (reads_in_bounds refls new_to_old \<longrightarrow>
        ReorderReflectivities refls new_to_old =
          Inr (map (\<lambda>i. refls ! nat (new_to_old ! i)) [0..<length refls]))
   \<and> (length refls = n \<and> is_permutation_of_indices new_to_old n \<longrightarrow>
        reads_in_bounds refls new_to_old)
   \<and> ReorderReflectivities [] new_to_old = Inr []
   \<and> ((\<exists>c. Compress ops laser_fan = Inr c) \<longleftrightarrow>
        reads_in_bounds (LaserFan3D.reflectivities laser_fan)
          (snd (CompressAndReturnOrder ops (LaserFan3D.returns laser_fan))))"
proof -
  have "(\<exists>c. Compress ops laser_fan = Inr c) \<longleftrightarrow>
        reads_in_bounds (LaserFan3D.reflectivities laser_fan)
          (snd (CompressAndReturnOrder ops (LaserFan3D.returns laser_fan)))"
    by (cases "CompressAndReturnOrder ops (LaserFan3D.returns laser_fan)")
       (simp add: Compress_def ReorderReflectivities_char)
  moreover have "reads_in_bounds [] new_to_old"
    by (simp add: reads_in_bounds_def)
  ultimately show ?thesis
    using permutation_reads_in_bounds [of new_to_old n refls]
    by (simp add: ReorderReflectivities_char)
qed

theorem ReorderReflectivities_in_bounds_witness:
  "reads_in_bounds [7, 9] [1, 0]
   \<and> length [7, 9 :: uint8] = 2 \<and> is_permutation_of_indices [1, 0] 2
   \<and> ReorderReflectivities [7, 9] [1, 0] = Inr [9, 7]
   \<and> \<not> reads_in_bounds [7, 9] [0, 2]
   \<and> ReorderReflectivities [7, 9] [0, 2] = Inl OutOfBounds
   \<and> ReorderReflectivities [7, 9] [0] = Inl OutOfBounds
   \<and> ReorderReflectivities [7, 9] [0, - 1] = Inl OutOfBounds"
proof -
  let ?ops = "sorting_ops (1/1000)"
  let ?fan = "\<lparr>LaserFan3D.origin = Vector3f (Fin 0) (Fin 0) (Fin 0),
           returns = [Vector3f (Fin 2) (Fin 0) (Fin 0), Vector3f (Fin 0) (Fin 0) (Fin 0)],
           misses = [], reflectivities = [7, 9]\<rparr>"
  show ?thesis
    using ReorderReflectivities_in_bounds [of "[7, 9]" "[1, 0]" 2 ?ops ?fan]
      ReorderReflectivities_in_bounds [of "[7, 9]" "[0, 2]" 2 ?ops ?fan]
      ReorderReflectivities_in_bounds [of "[7, 9]" "[0]" 2 ?ops ?fan]
      ReorderReflectivities_in_bounds [of "[7, 9]" "[0, - 1]" 2 ?ops ?fan]
    by (simp add: reads_in_bounds_def All_less_Suc is_permutation_of_indices_def upt_rec
        sorting_order_example)
qed

text \<open>
  Claim C1, as the code has it. Take a fan whose reflectivities are empty or as many as
  its returns, and let the point cloud coder, on the returns, yield a permutation
  \<open>new_to_old\<close> of the return indices and a compressed cloud that decodes, position by
  position, to within the tolerance \<open>approx\<close> of the original points in the order
  \<open>new_to_old\<close>. Then \<open>Compress\<close> succeeds and \<open>Decompress\<close> of its result has the same
  origin; its returns are, up to the tolerance, the original returns permuted by
  \<open>new_to_old\<close>, hence the same multiset; its reflectivities are the original ones
  permuted by \<open>new_to_old\<close> as well (they stay in the compressed order, they are not put
  back into the original order), so that every decoded return is paired with the
  reflectivity of the original point it came from.
\<close>

theorem Compress_Decompress_pairs_reflectivities:
  assumes order: "CompressAndReturnOrder ops (LaserFan3D.returns laser_fan) =
                    (compressed_returns, new_to_old)"
    and perm: "is_permutation_of_indices new_to_old (length (LaserFan3D.returns laser_fan))"
    and decoded: "list_all2 approx (Decompress_cloud ops compressed_returns)
                    (map (\<lambda>j. LaserFan3D.returns laser_fan ! nat j) new_to_old)"
    and aligned: "LaserFan3D.reflectivities laser_fan = [] \<or>
                  length (LaserFan3D.reflectivities laser_fan) =
                    length (LaserFan3D.returns laser_fan)"
  shows "\<exists>c. Compress ops laser_fan = Inr c
     \<and> LaserFan3D.origin (Decompress ops c) = LaserFan3D.origin laser_fan
     \<and> LaserFan3D.returns (Decompress ops c) = Decompress_cloud ops compressed_returns
     \<and> list_all2 approx (LaserFan3D.returns (Decompress ops c))
          (map (\<lambda>j. LaserFan3D.returns laser_fan ! nat j) new_to_old)
     \<and> mset (map (\<lambda>j. LaserFan3D.returns laser_fan ! nat j) new_to_old) =
          mset (LaserFan3D.returns laser_fan)
     \<and> (LaserFan3D.reflectivities laser_fan = [] \<longrightarrow>
          LaserFan3D.reflectivities (Decompress ops c) = [])
     \<and> (LaserFan3D.reflectivities laser_fan \<noteq> [] \<longrightarrow>
          LaserFan3D.reflectivities (Decompress ops c) =
            map (\<lambda>j. LaserFan3D.reflectivities laser_fan ! nat j) new_to_old
          \<and> list_all2 (\<lambda>(p, r) (q, s). approx p q \<and> r = s)
              (zip (LaserFan3D.returns (Decompress ops c))
                   (LaserFan3D.reflectivities (Decompress ops c)))
              (map (\<lambda>j. (LaserFan3D.returns laser_fan ! nat j,
                          LaserFan3D.reflectivities laser_fan ! nat j)) new_to_old)
          \<and> mset (map (\<lambda>j. (LaserFan3D.returns laser_fan ! nat j,
                             LaserFan3D.reflectivities laser_fan ! nat j)) new_to_old) =
              mset (zip (LaserFan3D.returns laser_fan) (LaserFan3D.reflectivities laser_fan)))"
proof -
  let ?rs = "LaserFan3D.returns laser_fan" and ?fs = "LaserFan3D.reflectivities laser_fan"
  let ?out = "if ?fs = [] then [] else map (\<lambda>j. ?fs ! nat j) new_to_old"
  let ?c = "\<lparr>CompressedLaserFan3D.origin = LaserFan3D.origin laser_fan,
             returns = compressed_returns,
             misses = CompressedPointCloud ops (LaserFan3D.misses laser_fan),
             reflectivities = ?out\<rparr>"
  have reorder: "ReorderReflectivities ?fs new_to_old = Inr ?out"
  proof (cases "?fs = []")
    case True
    then show ?thesis by (simp add: ReorderReflectivities_empty)
  next
    case False
    with aligned perm have "is_permutation_of_indices new_to_old (length ?fs)" by simp
    with False show ?thesis by (simp add: ReorderReflectivities_permutation)
  qed
  have c: "Compress ops laser_fan = Inr ?c"
    by (simp add: Compress_def order reorder)
  have ms: "mset (map (\<lambda>j. ?rs ! nat j) new_to_old) = mset ?rs"
    using perm by (rule permutation_mset)
  have pairs: "list_all2 (\<lambda>(p, r) (q, s). approx p q \<and> r = s)
              (zip (Decompress_cloud ops compressed_returns) (map (\<lambda>j. ?fs ! nat j) new_to_old))
              (map (\<lambda>j. (?rs ! nat j, ?fs ! nat j)) new_to_old)"
    using decoded by (auto simp: list_all2_conv_all_nth)
  have zs: "mset (map (\<lambda>j. (?rs ! nat j, ?fs ! nat j)) new_to_old) = mset (zip ?rs ?fs)"
    if "?fs \<noteq> []"
  proof -
    from that aligned have len: "length ?fs = length ?rs" by simp
    then have "is_permutation_of_indices new_to_old (length (zip ?rs ?fs))"
      using perm by simp
    then have "mset (map (\<lambda>j. zip ?rs ?fs ! nat j) new_to_old) = mset (zip ?rs ?fs)"
      by (rule permutation_mset)
    moreover have "map (\<lambda>j. zip ?rs ?fs ! nat j) new_to_old =
                   map (\<lambda>j. (?rs ! nat j, ?fs ! nat j)) new_to_old"
      using permutation_range [OF perm] len by (intro map_cong) simp_all
    ultimately show ?thesis by simp
  qed
  show ?thesis
    using c decoded ms pairs zs
    by (intro exI [of _ ?c]) (simp add: Decompress_def)
qed

theorem Compress_Decompress_pairs_reflectivities_witness:
  "CompressAndReturnOrder (sorting_ops (1/1000))
       [Vector3f (Fin 2) (Fin 0) (Fin 0), Vector3f (Fin 0) (Fin 0) (Fin 0)]
     = ([(0, 0, 0), (2000, 0, 0)], [1, 0])
   \<and> is_permutation_of_indices [1, 0] 2
   \<and> list_all2 (within_tolerance (1/1000))
        (Decompress_cloud (sorting_ops (1/1000)) [(0, 0, 0), (2000, 0, 0)])
        [Vector3f (Fin 0) (Fin 0) (Fin 0), Vector3f (Fin 2) (Fin 0) (Fin 0)]
   \<and> (\<exists>c. Compress (sorting_ops (1/1000))
          \<lparr>LaserFan3D.origin = Vector3f (Fin 0) (Fin 0) (Fin 0),
           returns = [Vector3f (Fin 2) (Fin 0) (Fin 0), Vector3f (Fin 0) (Fin 0) (Fin 0)],
           misses = [], reflectivities = [1, 2]\<rparr> = Inr c
        \<and> LaserFan3D.reflectivities (Decompress (sorting_ops (1/1000)) c) = [2, 1]
        \<and> LaserFan3D.returns (Decompress (sorting_ops (1/1000)) c) =
            [Vector3f (Fin 0) (Fin 0) (Fin 0), Vector3f (Fin 2) (Fin 0) (Fin 0)])"
proof -
  let ?fan = "\<lparr>LaserFan3D.origin = Vector3f (Fin 0) (Fin 0) (Fin 0),
           returns = [Vector3f (Fin 2) (Fin 0) (Fin 0), Vector3f (Fin 0) (Fin 0) (Fin 0)],
           misses = [], reflectivities = [1, 2]\<rparr>"
  have order: "CompressAndReturnOrder (sorting_ops (1/1000)) (LaserFan3D.returns ?fan)
     = ([(0, 0, 0), (2000, 0, 0)], [1, 0])"
    by (simp add: sorting_order_example)
  have perm: "is_permutation_of_indices [1, 0] (length (LaserFan3D.returns ?fan))"
    by (simp add: is_permutation_of_indices_def upt_rec)
  have decoded: "list_all2 (within_tolerance (1/1000))
        (Decompress_cloud (sorting_ops (1/1000)) [(0, 0, 0), (2000, 0, 0)])
        (map (\<lambda>j. LaserFan3D.returns ?fan ! nat j) [1, 0])"
    by (simp add: sorting_ops_def)
  have aligned: "LaserFan3D.reflectivities ?fan = [] \<or>
      length (LaserFan3D.reflectivities ?fan) = length (LaserFan3D.returns ?fan)"
    by simp
  from Compress_Decompress_pairs_reflectivities [OF order perm decoded aligned]
  obtain c where c: "Compress (sorting_ops (1/1000)) ?fan = Inr c"
    and returns: "LaserFan3D.returns (Decompress (sorting_ops (1/1000)) c) =
          Decompress_cloud (sorting_ops (1/1000)) [(0, 0, 0), (2000, 0, 0)]"
    and refls: "LaserFan3D.reflectivities ?fan \<noteq> [] \<longrightarrow>
          LaserFan3D.reflectivities (Decompress (sorting_ops (1/1000)) c) =
            map (\<lambda>j. LaserFan3D.reflectivities ?fan ! nat j) [1, 0]"
    by blast
  from refls have "LaserFan3D.reflectivities (Decompress (sorting_ops (1/1000)) c) = [2, 1]"
    by simp
  moreover from returns have "LaserFan3D.returns (Decompress (sorting_ops (1/1000)) c) =
      [Vector3f (Fin 0) (Fin 0) (Fin 0), Vector3f (Fin 2) (Fin 0) (Fin 0)]"
    by (simp add: sorting_ops_def)
  ultimately have "\<exists>c. Compress (sorting_ops (1/1000)) ?fan = Inr c
        \<and> LaserFan3D.reflectivities (Decompress (sorting_ops (1/1000)) c) = [2, 1]
        \<and> LaserFan3D.returns (Decompress (sorting_ops (1/1000)) c) =
            [Vector3f (Fin 0) (Fin 0) (Fin 0), Vector3f (Fin 2) (Fin 0) (Fin 0)]"
    using c by blast
  with order perm decoded show ?thesis
    by (simp add: numeral_2_eq_2)
qed

text \<open>
  Claim C1 as stated fails where it says that the reflectivities come back in their
  original order: for the returns \<open>(2, 0, 0)\<close>, \<open>(0, 0, 0)\<close> with reflectivities \<open>1\<close>, \<open>2\<close>,
  compression sorts the second point first, and the decoded fan has the reflectivities
  \<open>2\<close>, \<open>1\<close>, in the order of the decoded returns.
\<close>

theorem Compress_Decompress_reflectivity_order_counterexample:
  "Compress (sorting_ops (1/1000))
     \<lparr>LaserFan3D.origin = Vector3f (Fin 0) (Fin 0) (Fin 0),
      returns = [Vector3f (Fin 2) (Fin 0) (Fin 0), Vector3f (Fin 0) (Fin 0) (Fin 0)],
      misses = [], reflectivities = [1, 2]\<rparr>
   = Inr \<lparr>CompressedLaserFan3D.origin = Vector3f (Fin 0) (Fin 0) (Fin 0),
          returns = [(0, 0, 0), (2000, 0, 0)], misses = [], reflectivities = [2, 1]\<rparr>
   \<and> Decompress (sorting_ops (1/1000))
       \<lparr>CompressedLaserFan3D.origin = Vector3f (Fin 0) (Fin 0) (Fin 0),
        returns = [(0, 0, 0), (2000, 0, 0)], misses = [], reflectivities = [2, 1]\<rparr>
     = \<lparr>LaserFan3D.origin = Vector3f (Fin 0) (Fin 0) (Fin 0),
        returns = [Vector3f (Fin 0) (Fin 0) (Fin 0), Vector3f (Fin 2) (Fin 0) (Fin 0)],
        misses = [], reflectivities = [2, 1]\<rparr>
   \<and> [2, 1] \<noteq> [1, 2 :: uint8]"
  by (simp add: Compress_def Decompress_def sorting_order_example ReorderReflectivities_char
      reads_in_bounds_def All_less_Suc sorting_ops_def sorted_order_def upt_rec)

section \<open>The sliding window of odometry states\<close>

lemma window_size_AddOdometryState:
  "window_size (AddOdometryState tracker odometry_state) = window_size tracker"
  by (simp add: AddOdometryState_def Let_def)

lemma window_size_add_all:
  "window_size (add_all k states) = nat (k mod 2 ^ 64)"
  by (induction states rule: rev_induct)
     (simp_all add: add_all_def window_size_AddOdometryState OdometryStateTracker_init_def)

lemma add_all_snoc:
  "add_all k (states @ [s]) = AddOdometryState (add_all k states) s"
  by (simp add: add_all_def)

lemma odometry_states_add_all:
  assumes "1 \<le> k" and "k < 2 ^ 31"
  shows "odometry_states (add_all k states) = drop (length states - nat k) states"
proof (induction states rule: rev_induct)
  case Nil
  show ?case by (simp add: add_all_def OdometryStateTracker_init_def)
next
  case (snoc s states)
  have w: "window_size (add_all k states) = nat k"
    using assms by (simp add: window_size_add_all)
  show ?case
  proof (cases "nat k \<le> length states")
    case True
    with assms have ne: "drop (length states - nat k) states \<noteq> []" by simp
    from True have d: "Suc (length states) - nat k = Suc (length states - nat k)" by simp
    have "tl (drop (length states - nat k) states @ [s]) =
          tl (drop (length states - nat k) states) @ [s]"
      using ne by (simp add: tl_append split: list.splits)
    also have "\<dots> = drop (Suc (length states - nat k)) states @ [s]"
      by (simp add: drop_Suc tl_drop)
    finally have t: "tl (drop (length states - nat k) states @ [s]) =
          drop (Suc (length states - nat k)) states @ [s]" .
    from True assms show ?thesis
      by (simp add: add_all_snoc AddOdometryState_def Let_def snoc.IH w d t)
  next
    case False
    then show ?thesis
      by (simp add: add_all_snoc AddOdometryState_def Let_def snoc.IH w)
  qed
qed

text \<open>
  Claim C4. On a tracker constructed with a window size \<open>k \<ge> 1\<close> (an \<open>int\<close>, so below
  \<open>2^31\<close>), after any sequence of \<open>AddState\<close> calls the stored states are the last \<open>k\<close>
  appended states, in append order (all of them while fewer than \<open>k\<close> were appended):
  their number never exceeds \<open>k\<close>, and it is exactly \<open>k\<close> once \<open>k\<close> or more states were
  appended.
\<close>

theorem window_bound:
  assumes "1 \<le> k" and "k < 2 ^ 31"
  shows "length (odometry_states (add_all k states)) \<le> nat k
     \<and> odometry_states (add_all k states) = drop (length states - nat k) states
     \<and> (nat k \<le> length states \<longrightarrow>
          length (odometry_states (add_all k states)) = nat k
          \<and> odometry_states (add_all k states) = drop (length states - nat k) states)"
  using assms by (auto simp: odometry_states_add_all)

theorem window_bound_witness:
  "(1::int) \<le> 2 \<and> (2::int) < 2 ^ 31
   \<and> odometry_states (add_all 2
        [\<lparr>time = 1::nat, odometer_pose = ''a'', state_pose = ''p''\<rparr>,
         \<lparr>time = 2, odometer_pose = ''b'', state_pose = ''q''\<rparr>,
         \<lparr>time = 3, odometer_pose = ''c'', state_pose = ''r''\<rparr>])
     = [\<lparr>time = 2, odometer_pose = ''b'', state_pose = ''q''\<rparr>,
        \<lparr>time = 3, odometer_pose = ''c'', state_pose = ''r''\<rparr>]
   \<and> odometry_states (add_all 2
        [\<lparr>time = 1::nat, odometer_pose = ''a'', state_pose = ''p''\<rparr>])
     = [\<lparr>time = 1, odometer_pose = ''a'', state_pose = ''p''\<rparr>]"
  using window_bound [of 2 "[\<lparr>time = 1::nat, odometer_pose = ''a'', state_pose = ''p''\<rparr>,
         \<lparr>time = 2, odometer_pose = ''b'', state_pose = ''q''\<rparr>,
         \<lparr>time = 3, odometer_pose = ''c'', state_pose = ''r''\<rparr>]"]
    window_bound [of 2 "[\<lparr>time = 1::nat, odometer_pose = ''a'', state_pose = ''p''\<rparr>]"]
  by (simp add: add_all_def AddOdometryState_def OdometryStateTracker_init_def)

text \<open>
  Claim C7. A freshly constructed tracker (window size \<open>k \<ge> 1\<close>) is empty and its newest
  state is the default state, whose time is the minimum and whose two poses are the
  identity. After one \<open>AddState\<close> with a state \<open>s\<close> it is not empty and its newest state
  is \<open>s\<close>; after any non-empty sequence of \<open>AddState\<close> calls it is not empty and its newest
  state is the last one added.
\<close>

theorem newest_is_last_added:
  assumes "1 \<le> k" and "k < 2 ^ 31"
  shows "empty_tracker (OdometryStateTracker_init k :: ('t, 'p) OdometryStateTracker)
     \<and> newest (Time_min :: 't) (Identity :: 'p) (OdometryStateTracker_init k) =
         OdometryState_default Time_min Identity
     \<and> time (OdometryState_default Time_min Identity) = Time_min
     \<and> odometer_pose (OdometryState_default Time_min Identity) = Identity
     \<and> state_pose (OdometryState_default Time_min Identity) = Identity
     \<and> \<not> empty_tracker (AddOdometryState (OdometryStateTracker_init k) s)
     \<and> newest Time_min Identity (AddOdometryState (OdometryStateTracker_init k) s) = s
     \<and> (states \<noteq> [] \<longrightarrow>
          \<not> empty_tracker (add_all k states)
          \<and> newest Time_min Identity (add_all k states) = last states)"
proof -
  have fresh: "empty_tracker (OdometryStateTracker_init k :: ('t, 'p) OdometryStateTracker)"
    by (simp add: empty_tracker_def OdometryStateTracker_init_def)
  have one: "odometry_states (AddOdometryState (OdometryStateTracker_init k) s) = [s]"
    using odometry_states_add_all [OF assms, of "[s]"] assms
    by (simp add: add_all_def)
  have many: "odometry_states (add_all k states) \<noteq> []
      \<and> last (odometry_states (add_all k states)) = last states" if "states \<noteq> []"
  proof -
    from that assms have "length states - nat k < length states"
      by (cases states) auto
    with that show ?thesis
      by (simp add: odometry_states_add_all [OF assms] last_drop)
  qed
  show ?thesis
    using fresh one many
    by (simp add: newest_def empty_tracker_def OdometryState_default_def)
qed

theorem newest_is_last_added_witness:
  "(1::int) \<le> 2 \<and> (2::int) < 2 ^ 31
   \<and> empty_tracker (OdometryStateTracker_init 2 :: (nat, string) OdometryStateTracker)
   \<and> newest (0::nat) ''id'' (OdometryStateTracker_init 2) =
       \<lparr>time = 0, odometer_pose = ''id'', state_pose = ''id''\<rparr>
   \<and> newest (0::nat) ''id'' (AddOdometryState (OdometryStateTracker_init 2)
        \<lparr>time = 1, odometer_pose = ''a'', state_pose = ''p''\<rparr>)
     = \<lparr>time = 1, odometer_pose = ''a'', state_pose = ''p''\<rparr>
   \<and> newest (0::nat) ''id'' (add_all 2
        [\<lparr>time = 1::nat, odometer_pose = ''a'', state_pose = ''p''\<rparr>,
         \<lparr>time = 2, odometer_pose = ''b'', state_pose = ''q''\<rparr>,
         \<lparr>time = 3, odometer_pose = ''c'', state_pose = ''r''\<rparr>])
     = \<lparr>time = 3, odometer_pose = ''c'', state_pose = ''r''\<rparr>"
  using newest_is_last_added [of 2 "0::nat" "''id''"
      "\<lparr>time = 1, odometer_pose = ''a'', state_pose = ''p''\<rparr>"
      "[\<lparr>time = 1::nat, odometer_pose = ''a'', state_pose = ''p''\<rparr>,
         \<lparr>time = 2, odometer_pose = ''b'', state_pose = ''q''\<rparr>,
         \<lparr>time = 3, odometer_pose = ''c'', state_pose = ''r''\<rparr>]"]
  by (simp add: OdometryState_default_def)

section \<open>Compressing a decoded fan again\<close>

lemma map_key_sort_key: "map f (sort_key f xs) = sort (map f xs)"
  by (rule properties_for_sort [symmetric]) simp_all

lemma compressed_points_sorted:
  "map (\<lambda>j. to_raster precision (points ! j)) (sorted_order precision points) =
   sort (map (to_raster precision) points)"
proof -
  let ?ks = "map (to_raster precision) points"
  let ?zs = "zip ?ks [0..<length points]"
  have "map (to_raster precision \<circ> (!) points \<circ> snd) (sort_key fst ?zs) =
        map fst (sort_key fst ?zs)"
  proof (rule map_cong [OF refl])
    fix z assume "z \<in> set (sort_key fst ?zs)"
    then have "z \<in> set ?zs" by simp
    then obtain n where "?ks ! n = fst z" and "[0..<length points] ! n = snd z"
      and "n < length points"
      by (auto simp: in_set_zip)
    then show "(to_raster precision \<circ> (!) points \<circ> snd) z = fst z"
      by auto
  qed
  also have "\<dots> = sort (map fst ?zs)"
    by (rule map_key_sort_key)
  also have "map fst ?zs = ?ks"
    by simp
  finally show ?thesis
    by (simp add: sorted_order_def comp_def)
qed

lemma sorting_ops_order:
  "CompressAndReturnOrder (sorting_ops precision) points =
     (sort (map (to_raster precision) points), map int (sorted_order precision points))"
  by (simp add: sorting_ops_def compressed_points_sorted)

lemma sorting_ops_cloud:
  "CompressedPointCloud (sorting_ops precision) points = sort (map (to_raster precision) points)"
  by (simp add: sorting_ops_def compressed_points_sorted)

lemma sorting_ops_decode:
  "Decompress_cloud (sorting_ops precision) = map (from_raster precision)"
  by (simp add: sorting_ops_def)

lemma sorted_order_of_sorted:
  assumes "in_compressed_order precision points"
  shows "sorted_order precision points = [0..<length points]"
proof -
  let ?zs = "zip (map (to_raster precision) points) [0..<length points]"
  have "sorted (map fst ?zs)"
    using assms by (simp add: in_compressed_order_def)
  then have "sort_key fst ?zs = ?zs"
    by (rule sort_key_id_if_sorted)
  then show ?thesis
    by (simp add: sorted_order_def)
qed

lemma to_raster_from_raster:
  "precision \<noteq> 0 \<Longrightarrow> to_raster precision (from_raster precision k) = k"
  by (cases k) simp

lemma sorted_order_length: "length (sorted_order precision points) = length points"
  by (simp add: sorted_order_def)

lemma reorder_identity:
  assumes "length refls \<le> n"
  shows "ReorderReflectivities refls (map int [0..<n]) = Inr refls"
proof -
  have "reads_in_bounds refls (map int [0..<n])"
    using assms by (simp add: reads_in_bounds_def)
  moreover have "map (\<lambda>k. refls ! nat (map int [0..<n] ! k)) [0..<length refls] = refls"
    using assms by (intro nth_equalityI) simp_all
  ultimately show ?thesis
    by (simp add: ReorderReflectivities_char)
qed

text \<open>
  Claim C8, for the point cloud coder modelled from the specification (quantization to a
  grid of a positive precision, then sorting). The returns of a decoded fan are in
  compressed order, and compressing the decoded fan again and decoding it yields the
  same returns, with the same reflectivities. This holds for every fan that can be
  compressed, so in particular for one whose returns are already in compressed order.
\<close>

theorem Compress_idempotent_on_decoded_points:
  assumes prec: "0 < precision"
    and c1: "Compress (sorting_ops precision) laser_fan = Inr c1"
  shows "in_compressed_order precision
           (LaserFan3D.returns (Decompress (sorting_ops precision) c1))
     \<and> (\<exists>c2. Compress (sorting_ops precision) (Decompress (sorting_ops precision) c1) = Inr c2
          \<and> LaserFan3D.returns (Decompress (sorting_ops precision) c2) =
              LaserFan3D.returns (Decompress (sorting_ops precision) c1)
          \<and> LaserFan3D.reflectivities (Decompress (sorting_ops precision) c2) =
              LaserFan3D.reflectivities (Decompress (sorting_ops precision) c1))"
proof -
  let ?ops = "sorting_ops precision"
  let ?ks = "map (to_raster precision) (LaserFan3D.returns laser_fan)"
  let ?d1 = "Decompress ?ops c1"
  from prec have nz: "precision \<noteq> 0" by simp
  have inb: "reads_in_bounds (LaserFan3D.reflectivities laser_fan)
               (map int (sorted_order precision (LaserFan3D.returns laser_fan)))"
    and c1_eq: "c1 = \<lparr>CompressedLaserFan3D.origin = LaserFan3D.origin laser_fan,
                 returns = sort ?ks,
                 misses = CompressedPointCloud ?ops (LaserFan3D.misses laser_fan),
                 reflectivities = map (\<lambda>k. LaserFan3D.reflectivities laser_fan !
                     nat (map int (sorted_order precision (LaserFan3D.returns laser_fan)) ! k))
                   [0..<length (LaserFan3D.reflectivities laser_fan)]\<rparr>"
    using c1
    by (auto simp: Compress_def sorting_ops_order ReorderReflectivities_char split: if_splits)
  have returns1: "LaserFan3D.returns ?d1 = map (from_raster precision) (sort ?ks)"
    by (simp add: c1_eq Decompress_def sorting_ops_decode)
  have rasters1: "map (to_raster precision) (LaserFan3D.returns ?d1) = sort ?ks"
    by (simp add: returns1 comp_def to_raster_from_raster [OF nz])
  then have ordered: "in_compressed_order precision (LaserFan3D.returns ?d1)"
    by (simp add: in_compressed_order_def)
  have len1: "length (LaserFan3D.returns ?d1) = length (LaserFan3D.returns laser_fan)"
    by (simp add: returns1)
  have order2: "sorted_order precision (LaserFan3D.returns ?d1) =
                [0..<length (LaserFan3D.returns laser_fan)]"
    using sorted_order_of_sorted [OF ordered] by (simp add: len1)
  have short: "length (LaserFan3D.reflectivities ?d1) \<le> length (LaserFan3D.returns laser_fan)"
    using inb by (simp add: c1_eq Decompress_def reads_in_bounds_def sorted_order_length)
  let ?c2 = "\<lparr>CompressedLaserFan3D.origin = LaserFan3D.origin ?d1,
              returns = sort ?ks,
              misses = CompressedPointCloud ?ops (LaserFan3D.misses ?d1),
              reflectivities = LaserFan3D.reflectivities ?d1\<rparr>"
  have order: "CompressAndReturnOrder ?ops (LaserFan3D.returns ?d1) =
                 (sort ?ks, map int [0..<length (LaserFan3D.returns laser_fan)])"
    by (simp only: sorting_ops_order rasters1 order2 sorted_sort_id sorted_sort)
  have c2: "Compress ?ops ?d1 = Inr ?c2"
    unfolding Compress_def order using reorder_identity [OF short] by simp
  have "LaserFan3D.returns (Decompress ?ops ?c2) = LaserFan3D.returns ?d1"
    by (simp add: Decompress_def sorting_ops_decode c1_eq)
  moreover have "LaserFan3D.reflectivities (Decompress ?ops ?c2) = LaserFan3D.reflectivities ?d1"
    by (simp add: Decompress_def)
  ultimately show ?thesis
    using ordered c2 by blast
qed

theorem Compress_idempotent_on_decoded_points_witness:
  "(0::real) < 1/1000
   \<and> Compress (sorting_ops (1/1000))
       \<lparr>LaserFan3D.origin = Vector3f (Fin 0) (Fin 0) (Fin 0),
        returns = [Vector3f (Fin 2) (Fin 0) (Fin 0), Vector3f (Fin 0) (Fin 0) (Fin 0)],
        misses = [], reflectivities = [1, 2]\<rparr>
     = Inr \<lparr>CompressedLaserFan3D.origin = Vector3f (Fin 0) (Fin 0) (Fin 0),
            returns = [(0, 0, 0), (2000, 0, 0)], misses = [], reflectivities = [2, 1]\<rparr>
   \<and> in_compressed_order (1/1000)
       [Vector3f (Fin 0) (Fin 0) (Fin 0), Vector3f (Fin 2) (Fin 0) (Fin 0)]
   \<and> (\<exists>c2. Compress (sorting_ops (1/1000))
          \<lparr>LaserFan3D.origin = Vector3f (Fin 0) (Fin 0) (Fin 0),
           returns = [Vector3f (Fin 0) (Fin 0) (Fin 0), Vector3f (Fin 2) (Fin 0) (Fin 0)],
           misses = [], reflectivities = [2, 1]\<rparr> = Inr c2
        \<and> LaserFan3D.returns (Decompress (sorting_ops (1/1000)) c2) =
            [Vector3f (Fin 0) (Fin 0) (Fin 0), Vector3f (Fin 2) (Fin 0) (Fin 0)]
        \<and> LaserFan3D.reflectivities (Decompress (sorting_ops (1/1000)) c2) = [2, 1])"
proof -
  let ?c1 = "\<lparr>CompressedLaserFan3D.origin = Vector3f (Fin 0) (Fin 0) (Fin 0),
            returns = [(0, 0, 0), (2000, 0, 0)], misses = [], reflectivities = [2, 1]\<rparr>"
  have prec: "(0::real) < 1/1000"
    by simp
  have c1: "Compress (sorting_ops (1/1000))
       \<lparr>LaserFan3D.origin = Vector3f (Fin 0) (Fin 0) (Fin 0),
        returns = [Vector3f (Fin 2) (Fin 0) (Fin 0), Vector3f (Fin 0) (Fin 0) (Fin 0)],
        misses = [], reflectivities = [1, 2]\<rparr> = Inr ?c1"
    by (simp add: Compress_def sorting_order_example ReorderReflectivities_char
        reads_in_bounds_def All_less_Suc sorting_ops_def sorted_order_def upt_rec)
  have d1: "Decompress (sorting_ops (1/1000)) ?c1 =
        \<lparr>LaserFan3D.origin = Vector3f (Fin 0) (Fin 0) (Fin 0),
         returns = [Vector3f (Fin 0) (Fin 0) (Fin 0), Vector3f (Fin 2) (Fin 0) (Fin 0)],
         misses = [], reflectivities = [2, 1]\<rparr>"
    by (simp add: Decompress_def sorting_ops_def)
  show ?thesis
    using Compress_idempotent_on_decoded_points [OF prec c1] prec c1
    by (simp add: d1)
qed


end
